theory Spec2Isabelle
  imports Complex_Main "HOL-Library.Multiset"
begin

section \<open>ForgeBuild_2: a shallow embedding of the incremental build engine\<close>

text \<open>
  The development follows \<^verbatim>\<open>FB2.py\<close>: the fingerprint function \<^verbatim>\<open>hash_source\<close>,
  the class \<^verbatim>\<open>BuildCache\<close>, the worker \<^verbatim>\<open>compiler_daemon\<close>, the profile selection of
  \<^verbatim>\<open>BuildConfig.from_file\<close> and the methods \<^verbatim>\<open>build\<close>, \<^verbatim>\<open>_run_parallel_compilers\<close> and
  \<^verbatim>\<open>_link\<close> of \<^verbatim>\<open>ForgeBuilder\<close>.

  Python strings are modelled by their UTF-8 bytes (\<open>string\<close>), so \<^verbatim>\<open>s.encode("utf-8")\<close> is
  the identity. Everything the program asks of the outside world (the file system, the
  SHA-256 implementation, child processes, the clock, the order in which worker
  processes finish) is a field of the record \<open>env\<close>; every exception and every
  \<^verbatim>\<open>sys.exit\<close> is a value of the type \<open>error\<close>. Calls of \<^verbatim>\<open>log\<close> and \<^verbatim>\<open>print\<close> only
  produce output and are left out.
\<close>

subsection \<open>Values, errors and the outside world\<close>

text \<open>The values a JSON document can hold (\<^verbatim>\<open>Any\<close> in the type annotations).\<close>

datatype pyval =
    PNone
  | PBool bool
  | PInt int
  | PFloat real
  | PStr string
  | PList "pyval list"
  | PDict "(string \<times> pyval) list"

text \<open>
  \<^verbatim>\<open>SystemExit\<close> carries the exit code; \<^verbatim>\<open>OSError\<close> carries the name of the operation
  that failed; \<^verbatim>\<open>ValueError\<close> is what \<^verbatim>\<open>with_suffix\<close> raises on a path with an empty name;
  the two decode errors are those of \<^verbatim>\<open>json.load\<close> and \<^verbatim>\<open>tomllib.load\<close>.
\<close>

datatype error = SystemExit int | OSError string | ValueError | JSONDecodeError | TOMLDecodeError

text \<open>A compile task is the triple \<^verbatim>\<open>(src, obj, hash)\<close> of \<^verbatim>\<open>compile_tasks\<close>.\<close>

type_synonym task = "string \<times> string \<times> string"

text \<open>\<^verbatim>\<open>Dict[str, Dict[str, Any]]\<close>, the type of \<^verbatim>\<open>BuildCache.data\<close>.\<close>

type_synonym cache_entry = "string \<rightharpoonup> pyval"
type_synonym cache_data = "string \<rightharpoonup> cache_entry"

text \<open>
  The persisted cache file: absent, present but not openable for reading, present with
  a content that \<^verbatim>\<open>json.load\<close> rejects, or present with the JSON text of a cache map.
\<close>

datatype cache_file = Absent | Unreadable | Unparsable | Stored cache_data

text \<open>
  What happens when \<^verbatim>\<open>BuildCache.save\<close> writes: the write succeeds, \<^verbatim>\<open>open\<close> raises
  (the file is untouched), or \<^verbatim>\<open>json.dump\<close> raises after \<^verbatim>\<open>open\<close> truncated the file.
\<close>

datatype write_outcome = WriteOk | OpenFails | DumpFails

record env =
  path_exists :: "string \<Rightarrow> bool"
  path_resolve :: "string \<Rightarrow> string"
  file_bytes :: "string \<Rightarrow> string option"
  sha256_hexdigest :: "string \<Rightarrow> string"
  mkdir_parents :: "string \<Rightarrow> bool"
  subprocess_run :: "string list \<Rightarrow> (int \<times> string) option"
  finish_time :: "task \<Rightarrow> nat"
  time_time :: "task \<Rightarrow> real"
  cache_write :: write_outcome
  os_name :: string

text \<open>
  \<^item> \<open>path_exists\<close>, \<open>path_resolve\<close>: \<^verbatim>\<open>Path.exists\<close> and \<^verbatim>\<open>Path.resolve\<close>;
  \<^item> \<open>file_bytes\<close>: the content \<^verbatim>\<open>read_file_bytes\<close> reads, \<open>None\<close> when opening or
    reading raises;
  \<^item> \<open>sha256_hexdigest\<close>: the digest of the bytes fed to a \<^verbatim>\<open>hashlib.sha256\<close> object;
  \<^item> \<open>mkdir_parents\<close>: whether \<^verbatim>\<open>mkdir(parents=True, exist_ok=True)\<close> succeeds;
  \<^item> \<open>subprocess_run\<close>: return code and captured standard error of a child process,
    \<open>None\<close> when \<^verbatim>\<open>subprocess.run\<close> itself raises (the command cannot be started);
  \<^item> \<open>finish_time\<close>: when the job of a task finishes; \<^verbatim>\<open>as_completed\<close> yields the jobs in
    this order;
  \<^item> \<open>time_time\<close>: the clock read when the completion of a job is processed;
  \<^item> \<open>cache_write\<close>: the fate of the write of the cache file;
  \<^item> \<open>os_name\<close>: \<^verbatim>\<open>os.name\<close>.
\<close>

subsection \<open>The fingerprint function\<close>

definition read_file_bytes :: "env \<Rightarrow> string \<Rightarrow> error + string" where
  "read_file_bytes e path =
     (case file_bytes e path of None \<Rightarrow> Inl (OSError ''read'') | Some b \<Rightarrow> Inr b)"

text \<open>
  A \<^verbatim>\<open>hashlib\<close> object is the sequence of bytes it has been fed: \<^verbatim>\<open>h.update(b)\<close> appends,
  \<^verbatim>\<open>h.hexdigest()\<close> is the digest of the whole sequence.
\<close>

definition sha_update :: "string \<Rightarrow> string \<Rightarrow> string" where
  "sha_update h b = h @ b"

definition hash_source ::
  "env \<Rightarrow> string \<Rightarrow> string list \<Rightarrow> string list \<Rightarrow> string list \<Rightarrow> error + string" where
  "hash_source e source_path base_flags profile_flags include_dirs =
     (let h = [];
          h = sha_update h (path_resolve e source_path)
      in case read_file_bytes e source_path of
           Inl err \<Rightarrow> Inl err
         | Inr content \<Rightarrow>
             (let h = sha_update h content;
                  h = foldl sha_update h base_flags;
                  h = foldl sha_update h profile_flags;
                  h = foldl sha_update h include_dirs
              in Inr (sha256_hexdigest e h)))"

subsection \<open>Paths\<close>

text \<open>
  \<^verbatim>\<open>pathlib\<close> on a POSIX system, as far as the program uses it. A path is its anchor
  (empty, one slash or two slashes) and its components; parsing a string drops the
  empty components and the components that are a single dot. \<^verbatim>\<open>suffix\<close> is the part of
  the name from its last dot on, when that dot is neither the first nor the last
  character of the name.
\<close>

fun split_sep :: "string \<Rightarrow> string list" where
  "split_sep [] = [[]]"
| "split_sep (c # cs) =
     (if c = CHR ''/'' then [] # split_sep cs
      else (case split_sep cs of [] \<Rightarrow> [[c]] | x # xs \<Rightarrow> (c # x) # xs))"

fun join_sep :: "string list \<Rightarrow> string" where
  "join_sep [] = []"
| "join_sep [x] = x"
| "join_sep (x # y # ys) = x @ ''/'' @ join_sep (y # ys)"

record Path =
  anchor :: string
  segs :: "string list"

definition path_anchor :: "string \<Rightarrow> string" where
  "path_anchor s =
     (if take 2 s = ''//'' \<and> take 3 s \<noteq> ''///'' then ''//''
      else if take 1 s = ''/'' then ''/''
      else [])"

definition Path_of :: "string \<Rightarrow> Path" where
  "Path_of s =
     \<lparr>anchor = path_anchor s, segs = filter (\<lambda>x. x \<noteq> [] \<and> x \<noteq> ''.'') (split_sep s)\<rparr>"

definition path_str :: "Path \<Rightarrow> string" where
  "path_str p = (if anchor p = [] \<and> segs p = [] then ''.'' else anchor p @ join_sep (segs p))"

definition path_name :: "Path \<Rightarrow> string" where
  "path_name p = (if segs p = [] then [] else last (segs p))"

definition rfind :: "char \<Rightarrow> string \<Rightarrow> int" where
  "rfind c s =
     (if c \<in> set s then int (length s) - 1 - int (length (takeWhile (\<lambda>x. x \<noteq> c) (rev s)))
      else - 1)"

definition path_suffix :: "Path \<Rightarrow> string" where
  "path_suffix p =
     (let nm = path_name p; i = rfind CHR ''.'' nm
      in if 0 < i \<and> i < int (length nm) - 1 then drop (nat i) nm else [])"

definition with_suffix :: "Path \<Rightarrow> string \<Rightarrow> error + Path" where
  "with_suffix p suffix =
     (if CHR ''/'' \<in> set suffix \<or> (suffix \<noteq> [] \<and> take 1 suffix \<noteq> ''.'') \<or> suffix = ''.''
      then Inl ValueError
      else let nm = path_name p in
        if nm = [] then Inl ValueError
        else let old_suffix = path_suffix p;
                 nm' = (if old_suffix = [] then nm @ suffix
                        else take (length nm - length old_suffix) nm @ suffix)
             in Inr (p\<lparr>segs := butlast (segs p) @ [nm']\<rparr>))"

definition truediv :: "Path \<Rightarrow> string \<Rightarrow> Path" where
  "truediv p s =
     (let q = Path_of s
      in if anchor q \<noteq> [] then q else \<lparr>anchor = anchor p, segs = segs p @ segs q\<rparr>)"

definition path_parent :: "Path \<Rightarrow> Path" where
  "path_parent p = p\<lparr>segs := butlast (segs p)\<rparr>"

text \<open>The path itself and all its ancestors: what \<^verbatim>\<open>mkdir(parents=True)\<close> creates.\<close>

definition path_and_parents :: "Path \<Rightarrow> string list" where
  "path_and_parents p =
     map (\<lambda>n. path_str (p\<lparr>segs := take n (segs p)\<rparr>)) [0..<Suc (length (segs p))]"

subsection \<open>The cache store\<close>

text \<open>
  \<^verbatim>\<open>open\<close> followed by \<^verbatim>\<open>json.load\<close>, the body of the \<^verbatim>\<open>try\<close> block of \<^verbatim>\<open>_load\<close>.
\<close>

definition json_load :: "cache_file \<Rightarrow> error + cache_data" where
  "json_load f =
     (case f of
        Absent \<Rightarrow> Inl (OSError ''read'')
      | Unreadable \<Rightarrow> Inl (OSError ''read'')
      | Unparsable \<Rightarrow> Inl JSONDecodeError
      | Stored d \<Rightarrow> Inr d)"

definition file_exists :: "cache_file \<Rightarrow> bool" where
  "file_exists f = (case f of Absent \<Rightarrow> False | _ \<Rightarrow> True)"

text \<open>\<^verbatim>\<open>BuildCache._load\<close>: \<^verbatim>\<open>except Exception\<close> turns every error of the block into \<^verbatim>\<open>{}\<close>.\<close>

definition BuildCache_load :: "cache_file \<Rightarrow> cache_data" where
  "BuildCache_load f =
     (if \<not> file_exists f then Map.empty
      else case json_load f of Inl err \<Rightarrow> Map.empty | Inr d \<Rightarrow> d)"

text \<open>The three methods take the object path as a \<^verbatim>\<open>Path\<close>; the key is its \<^verbatim>\<open>str\<close>.\<close>

definition get_entry :: "cache_data \<Rightarrow> Path \<Rightarrow> cache_entry option" where
  "get_entry d obj_path = d (path_str obj_path)"

definition update_entry :: "cache_data \<Rightarrow> Path \<Rightarrow> string \<Rightarrow> real \<Rightarrow> cache_data" where
  "update_entry d obj_path source_hash now =
     d(path_str obj_path \<mapsto> [''hash'' \<mapsto> PStr source_hash, ''timestamp'' \<mapsto> PFloat now])"

definition needs_rebuild :: "cache_data \<Rightarrow> Path \<Rightarrow> string \<Rightarrow> bool" where
  "needs_rebuild d obj_path source_hash =
     (case get_entry d obj_path of
        None \<Rightarrow> True
      | Some entry \<Rightarrow> entry ''hash'' \<noteq> Some (PStr source_hash))"

subsection \<open>Configuration\<close>

record BuildProfile =
  name :: string
  flags :: "string list"

text \<open>
  The parsed \<^verbatim>\<open>forge.toml\<close>, one field per key that \<^verbatim>\<open>from_file\<close> reads, \<open>None\<close> when the
  key is absent. The value of \<^verbatim>\<open>[build].profile\<close> is kept as any value, as the
  comparison with \<^verbatim>\<open>"release"\<close> accepts any.
\<close>

record toml_doc =
  t_project :: "string option"
  t_version :: "string option"
  t_build_profile :: "pyval option"
  t_sources_cpp :: "string list option"
  t_compiler_command :: "string option"
  t_compiler_flags :: "string list option"
  t_include_dirs :: "string list option"
  t_output_dir :: "string option"
  t_binary_name :: "string option"

datatype config_file = ConfigMissing | ConfigInvalid | ConfigDoc toml_doc

record BuildConfig =
  raw :: toml_doc
  project :: string
  version :: string
  profile :: BuildProfile
  cpp_sources :: "string list"
  compiler_cmd :: string
  compiler_base_flags :: "string list"
  include_dirs :: "string list"
  output_dir :: string
  binary_name :: string

definition dict_get :: "'a option \<Rightarrow> 'a \<Rightarrow> 'a" where
  "dict_get v dflt = (case v of None \<Rightarrow> dflt | Some x \<Rightarrow> x)"

definition from_file :: "config_file \<Rightarrow> error + BuildConfig" where
  "from_file f =
     (case f of
        ConfigMissing \<Rightarrow> Inl (SystemExit 1)
      | ConfigInvalid \<Rightarrow> Inl TOMLDecodeError
      | ConfigDoc doc \<Rightarrow>
          (let project_v = dict_get (t_project doc) ''UnnamedProject'';
               version_v = dict_get (t_version doc) ''0.0.0'';
               profile_name = dict_get (t_build_profile doc) (PStr ''debug'');
               profile_v =
                 (if profile_name = PStr ''release''
                  then \<lparr>name = ''release'', flags = [''-O3'', ''-DNDEBUG'']\<rparr>
                  else \<lparr>name = ''debug'', flags = [''-O0'', ''-g'']\<rparr>);
               cpp_sources_v = dict_get (t_sources_cpp doc) []
           in if cpp_sources_v = [] then Inl (SystemExit 1)
              else
                (let compiler_cmd_v = dict_get (t_compiler_command doc) ''clang++'';
                     base_flags = dict_get (t_compiler_flags doc) [];
                     include_dirs_v = dict_get (t_include_dirs doc) [];
                     output_dir_v = dict_get (t_output_dir doc) ''build'';
                     binary_name_v = dict_get (t_binary_name doc) project_v
                 in Inr \<lparr>raw = doc, project = project_v, version = version_v,
                          profile = profile_v, cpp_sources = cpp_sources_v,
                          compiler_cmd = compiler_cmd_v, compiler_base_flags = base_flags,
                          include_dirs = include_dirs_v, output_dir = output_dir_v,
                          binary_name = binary_name_v\<rparr>)))"

subsection \<open>The state of a run\<close>

text \<open>
  What the program holds and changes: the cache map in memory, the cache file, how
  often that file has been opened for writing, the directories that exist, the
  compiler and linker processes that have run, the jobs handed to the pool and the
  jobs whose completion has been processed.
\<close>

record world =
  cache :: cache_data
  cache_on_disk :: cache_file
  cache_writes :: nat
  dirs :: "string set"
  compile_procs :: "string list list"
  link_procs :: "string list list"
  submitted :: "task list"
  completed :: "task list"

definition mkdir :: "env \<Rightarrow> Path \<Rightarrow> world \<Rightarrow> error option \<times> world" where
  "mkdir e p w =
     (if mkdir_parents e (path_str p)
      then (None, w\<lparr>dirs := dirs w \<union> set (path_and_parents p)\<rparr>)
      else (Some (OSError ''mkdir''), w))"

definition BuildCache_save :: "env \<Rightarrow> world \<Rightarrow> error option \<times> world" where
  "BuildCache_save e w =
     (case cache_write e of
        WriteOk \<Rightarrow>
          (None, w\<lparr>cache_on_disk := Stored (cache w), cache_writes := Suc (cache_writes w)\<rparr>)
      | OpenFails \<Rightarrow> (Some (OSError ''open for writing''), w)
      | DumpFails \<Rightarrow>
          (Some (OSError ''write''),
           w\<lparr>cache_on_disk := Unparsable, cache_writes := Suc (cache_writes w)\<rparr>))"

text \<open>\<^verbatim>\<open>ForgeBuilder.__init__\<close> loads the cache.\<close>

definition ForgeBuilder_init :: "world \<Rightarrow> world" where
  "ForgeBuilder_init w = w\<lparr>cache := BuildCache_load (cache_on_disk w)\<rparr>"

subsection \<open>The compile worker\<close>

definition compile_cmd ::
  "string \<Rightarrow> string list \<Rightarrow> string list \<Rightarrow> string list \<Rightarrow> string \<Rightarrow> string \<Rightarrow> string list" where
  "compile_cmd compiler base_flags profile_flags incs source obj_path =
     (let src = Path_of source;
          obj = Path_of obj_path;
          cmd = [compiler, ''-c'', path_str src, ''-o'', path_str obj];
          cmd = foldl (\<lambda>cmd inc. cmd @ [''-I'' @ inc]) cmd incs;
          cmd = cmd @ base_flags;
          cmd = cmd @ profile_flags
      in cmd)"

definition compiler_daemon ::
  "env \<Rightarrow> string \<Rightarrow> string list \<Rightarrow> string list \<Rightarrow> string list \<Rightarrow> string \<Rightarrow> string \<Rightarrow> world
     \<Rightarrow> (error + string \<times> int \<times> string) \<times> world" where
  "compiler_daemon e compiler base_flags profile_flags incs source obj_path w =
     (let obj = Path_of obj_path
      in case mkdir e (path_parent obj) w of
           (Some err, w1) \<Rightarrow> (Inl err, w1)
         | (None, w1) \<Rightarrow>
             (let cmd = compile_cmd compiler base_flags profile_flags incs source obj_path
              in case subprocess_run e cmd of
                   None \<Rightarrow> (Inl (OSError ''exec''), w1)
                 | Some (returncode, stderr) \<Rightarrow>
                     (Inr (source, returncode, stderr),
                      w1\<lparr>compile_procs := compile_procs w1 @ [cmd]\<rparr>)))"

subsection \<open>The builder\<close>

text \<open>
  Step 1 of \<^verbatim>\<open>build\<close>, the loop over \<^verbatim>\<open>cpp_sources\<close>. \<open>compilation_unit\<close> is
  what the body of the loop derives from one source: \<^verbatim>\<open>src_path\<close>, \<^verbatim>\<open>obj_path\<close> and
  \<^verbatim>\<open>source_hash\<close>, or the error that ends the loop. \<open>decide_rebuilds\<close> is the loop: its
  result is the pair of \<^verbatim>\<open>obj_files\<close> and \<^verbatim>\<open>compile_tasks\<close>; a task holds the two
  paths as strings.
\<close>

definition compilation_unit :: "env \<Rightarrow> BuildConfig \<Rightarrow> string \<Rightarrow> error + Path \<times> Path \<times> string" where
  "compilation_unit e cfg src_str =
     (let src_path = Path_of src_str
      in if \<not> path_exists e (path_str src_path) then Inl (SystemExit 1)
         else case with_suffix src_path ''.o'' of
           Inl err \<Rightarrow> Inl err
         | Inr with_o \<Rightarrow>
             (let obj_name = path_name with_o;
                  obj_path = truediv (Path_of (output_dir cfg)) obj_name
              in case hash_source e (path_str src_path) (compiler_base_flags cfg)
                        (flags (profile cfg)) (include_dirs cfg) of
                   Inl err \<Rightarrow> Inl err
                 | Inr source_hash \<Rightarrow> Inr (src_path, obj_path, source_hash)))"

fun decide_rebuilds ::
  "env \<Rightarrow> BuildConfig \<Rightarrow> bool \<Rightarrow> cache_data \<Rightarrow> string list \<Rightarrow> error + Path list \<times> task list" where
  "decide_rebuilds e cfg force_rebuild d [] = Inr ([], [])"
| "decide_rebuilds e cfg force_rebuild d (src_str # rest) =
     (case compilation_unit e cfg src_str of
        Inl err \<Rightarrow> Inl err
      | Inr (src_path, obj_path, source_hash) \<Rightarrow>
          (case decide_rebuilds e cfg force_rebuild d rest of
             Inl err \<Rightarrow> Inl err
           | Inr (obj_files, compile_tasks) \<Rightarrow>
               Inr (obj_path # obj_files,
                    (if force_rebuild \<or> needs_rebuild d obj_path source_hash
                     then [(path_str src_path, path_str obj_path, source_hash)] else [])
                      @ compile_tasks)))"

text \<open>
  The loop over \<^verbatim>\<open>as_completed(future_map)\<close>: the jobs in the order in which they
  finish, the flag \<^verbatim>\<open>errors\<close> and the state. A job whose worker raised, or whose
  compiler returned a code other than 0, sets the flag; any other job updates the
  cache. The loop has no exit but its end. The size of the pool (\<^verbatim>\<open>jobs\<close>) decides
  how many workers run at a time and nothing of what the loop computes; it is left
  out.
\<close>

fun drain :: "env \<Rightarrow> BuildConfig \<Rightarrow> task list \<Rightarrow> bool \<times> world \<Rightarrow> bool \<times> world" where
  "drain e cfg [] (errors, w) = (errors, w)"
| "drain e cfg ((src, obj, hsh) # rest) (errors, w) =
     (case compiler_daemon e (compiler_cmd cfg) (compiler_base_flags cfg)
             (flags (profile cfg)) (include_dirs cfg) src obj w of
        (result, w1) \<Rightarrow>
          (let w2 = w1\<lparr>completed := completed w1 @ [(src, obj, hsh)]\<rparr>
           in case result of
                Inl err \<Rightarrow> drain e cfg rest (True, w2)
              | Inr (source, returncode, stderr_output) \<Rightarrow>
                  if returncode \<noteq> 0 then drain e cfg rest (True, w2)
                  else drain e cfg rest
                         (errors,
                          w2\<lparr>cache := update_entry (cache w2) (Path_of obj) hsh
                                         (time_time e (src, obj, hsh))\<rparr>)))"

definition as_completed :: "env \<Rightarrow> task list \<Rightarrow> task list" where
  "as_completed e tasks = sort_key (finish_time e) tasks"

definition run_parallel_compilers ::
  "env \<Rightarrow> BuildConfig \<Rightarrow> task list \<Rightarrow> world \<Rightarrow> error option \<times> world" where
  "run_parallel_compilers e cfg tasks w =
     (case drain e cfg (as_completed e tasks) (False, w\<lparr>submitted := submitted w @ tasks\<rparr>) of
        (errors, w1) \<Rightarrow> if errors then (Some (SystemExit 1), w1) else (None, w1))"

definition lower_char :: "char \<Rightarrow> char" where
  "lower_char c =
     (if 65 \<le> (of_char c :: nat) \<and> (of_char c :: nat) \<le> 90
      then char_of (of_char c + 32 :: nat) else c)"

definition endswith_exe :: "string \<Rightarrow> bool" where
  "endswith_exe s = (4 \<le> length s \<and> map lower_char (drop (length s - 4) s) = ''.exe'')"

definition link_cmd :: "env \<Rightarrow> BuildConfig \<Rightarrow> Path list \<Rightarrow> string list" where
  "link_cmd e cfg obj_files =
     (let bin = binary_name cfg;
          bin = (if os_name e = ''nt'' \<and> \<not> endswith_exe bin then bin @ ''.exe'' else bin);
          output_binary = truediv (Path_of (output_dir cfg)) bin;
          cmd = [compiler_cmd cfg];
          cmd = cmd @ map path_str obj_files;
          cmd = cmd @ compiler_base_flags cfg;
          cmd = cmd @ flags (profile cfg);
          cmd = cmd @ [''-o'', path_str output_binary]
      in cmd)"

definition link :: "env \<Rightarrow> BuildConfig \<Rightarrow> Path list \<Rightarrow> world \<Rightarrow> error option \<times> world" where
  "link e cfg obj_files w =
     (if obj_files = [] then (None, w)
      else
        (let cmd = link_cmd e cfg obj_files
         in case subprocess_run e cmd of
              None \<Rightarrow> (Some (OSError ''exec''), w)
            | Some (returncode, stderr) \<Rightarrow>
                (let w1 = w\<lparr>link_procs := link_procs w @ [cmd]\<rparr>
                 in if returncode \<noteq> 0 then (Some (SystemExit 1), w1) else (None, w1))))"

definition build :: "env \<Rightarrow> BuildConfig \<Rightarrow> bool \<Rightarrow> world \<Rightarrow> error option \<times> world" where
  "build e cfg force_rebuild w =
     (case mkdir e (Path_of (output_dir cfg)) w of
        (Some err, w1) \<Rightarrow> (Some err, w1)
      | (None, w1) \<Rightarrow>
          (case decide_rebuilds e cfg force_rebuild (cache w1) (cpp_sources cfg) of
             Inl err \<Rightarrow> (Some err, w1)
           | Inr (obj_files, compile_tasks) \<Rightarrow>
               (case (if compile_tasks \<noteq> [] then run_parallel_compilers e cfg compile_tasks w1
                      else (None, w1)) of
                  (Some err, w2) \<Rightarrow> (Some err, w2)
                | (None, w2) \<Rightarrow>
                    (case link e cfg obj_files w2 of
                       (Some err, w3) \<Rightarrow> (Some err, w3)
                     | (None, w3) \<Rightarrow> BuildCache_save e w3))))"

text \<open>The exit code of the process: 0 on return, 1 on an exception that nothing catches.\<close>

definition exit_code :: "error option \<Rightarrow> int" where
  "exit_code r = (case r of None \<Rightarrow> 0 | Some (SystemExit c) \<Rightarrow> c | Some _ \<Rightarrow> 1)"

text \<open>The commands of \<^verbatim>\<open>main\<close> that call \<^verbatim>\<open>build\<close>, with the flag they pass.\<close>

definition main_force_rebuild :: "string \<Rightarrow> bool option" where
  "main_force_rebuild command =
     (if command = ''build'' then Some False
      else if command = ''force-build'' then Some True
      else None)"

subsection \<open>Notions used in the statements\<close>

text \<open>
  A job succeeds when its worker returns the code 0: the directory of the object file
  could be made, the compiler could be started, and it returned 0. In every other
  case (the worker raised, or the compiler returned another code) the job fails.
\<close>

definition compiles_ok :: "env \<Rightarrow> BuildConfig \<Rightarrow> task \<Rightarrow> bool" where
  "compiles_ok e cfg t =
     (case t of (src, obj, hsh) \<Rightarrow>
        mkdir_parents e (path_str (path_parent (Path_of obj))) \<and>
        (case subprocess_run e (compile_cmd (compiler_cmd cfg) (compiler_base_flags cfg)
                 (flags (profile cfg)) (include_dirs cfg) src obj) of
           None \<Rightarrow> False
         | Some (returncode, stderr) \<Rightarrow> returncode = 0))"

text \<open>The entry that \<^verbatim>\<open>update_entry\<close> writes for a task.\<close>

definition entry_of :: "env \<Rightarrow> task \<Rightarrow> cache_entry" where
  "entry_of e t =
     (case t of (src, obj, hsh) \<Rightarrow>
        [''hash'' \<mapsto> PStr hsh, ''timestamp'' \<mapsto> PFloat (time_time e t)])"

text \<open>The cache after the completions of the jobs \<open>ts\<close> have been processed in this order.\<close>

fun cache_after :: "env \<Rightarrow> BuildConfig \<Rightarrow> cache_data \<Rightarrow> task list \<Rightarrow> cache_data" where
  "cache_after e cfg d [] = d"
| "cache_after e cfg d (t # ts) =
     cache_after e cfg
       (if compiles_ok e cfg t then d(path_str (Path_of (fst (snd t))) \<mapsto> entry_of e t) else d) ts"

text \<open>
  \<^verbatim>\<open>stem\<close> of \<^verbatim>\<open>pathlib\<close>: the name without its suffix. \<open>object_path\<close> is the object path
  that the loop of \<^verbatim>\<open>build\<close> derives from a source, \<open>dir_prefix\<close> what \<^verbatim>\<open>str\<close> prints before
  the name of a file in a directory.
\<close>

definition path_stem :: "Path \<Rightarrow> string" where
  "path_stem p =
     (let nm = path_name p; old_suffix = path_suffix p
      in if old_suffix = [] then nm else take (length nm - length old_suffix) nm)"

definition object_path :: "string \<Rightarrow> string \<Rightarrow> error + string" where
  "object_path out src_str =
     (case with_suffix (Path_of src_str) ''.o'' of
        Inl err \<Rightarrow> Inl err
      | Inr with_o \<Rightarrow> Inr (path_str (truediv (Path_of out) (path_name with_o))))"

text \<open>
  The paths that parsing produces: the anchor is empty, one slash or two, and no
  component is empty, a single dot or holds a slash. \<^verbatim>\<open>str\<close> of such a path parses back
  to the path.
\<close>

definition wf_path :: "Path \<Rightarrow> bool" where
  "wf_path p \<longleftrightarrow>
     (anchor p = [] \<or> anchor p = ''/'' \<or> anchor p = ''//'') \<and>
     list_all (\<lambda>s. s \<noteq> [] \<and> s \<noteq> ''.'' \<and> CHR ''/'' \<notin> set s) (segs p)"

text \<open>The task of a unit, and the units that a cache (or the force flag) declares stale.\<close>

definition task_of :: "Path \<times> Path \<times> string \<Rightarrow> task" where
  "task_of u = (case u of (src_path, obj_path, h) \<Rightarrow> (path_str src_path, path_str obj_path, h))"

definition stale :: "bool \<Rightarrow> cache_data \<Rightarrow> Path \<times> Path \<times> string \<Rightarrow> bool" where
  "stale force_rebuild d u =
     (case u of (src_path, obj_path, h) \<Rightarrow> force_rebuild \<or> needs_rebuild d obj_path h)"

definition dir_prefix :: "Path \<Rightarrow> string" where
  "dir_prefix p = anchor p @ (if segs p = [] then [] else join_sep (segs p) @ ''/'')"

text \<open>
  The error with which \<^verbatim>\<open>_link\<close> and \<^verbatim>\<open>BuildCache.save\<close> end, \<open>None\<close> when they return.
\<close>

definition link_error :: "env \<Rightarrow> BuildConfig \<Rightarrow> Path list \<Rightarrow> error option" where
  "link_error e cfg obj_files =
     (if obj_files = [] then None
      else case subprocess_run e (link_cmd e cfg obj_files) of
             None \<Rightarrow> Some (OSError ''exec'')
           | Some (returncode, stderr) \<Rightarrow>
               if returncode \<noteq> 0 then Some (SystemExit 1) else None)"

definition save_error :: "env \<Rightarrow> error option" where
  "save_error e =
     (case cache_write e of
        WriteOk \<Rightarrow> None
      | OpenFails \<Rightarrow> Some (OSError ''open for writing'')
      | DumpFails \<Rightarrow> Some (OSError ''write''))"

text \<open>The state of a process that has just started, with the cache file it finds.\<close>

definition new_world :: "cache_file \<Rightarrow> world" where
  "new_world f =
     \<lparr>cache = Map.empty, cache_on_disk = f, cache_writes = 0, dirs = {},
      compile_procs = [], link_procs = [], submitted = [], completed = []\<rparr>"


subsection \<open>Concrete environments and configurations\<close>

text \<open>
  An environment in which every source exists, the digest of a byte string is the
  string itself (a hash without collisions), every directory can be made, every
  process returns 0, all jobs finish at the same time and the cache file can be
  written.
\<close>

definition env_ok :: env where
  "env_ok =
     \<lparr>path_exists = (\<lambda>p. True), path_resolve = (\<lambda>p. ''/w/'' @ p),
      file_bytes = (\<lambda>p. Some ''int x;''), sha256_hexdigest = (\<lambda>b. b),
      mkdir_parents = (\<lambda>p. True), subprocess_run = (\<lambda>cmd. Some (0, [])),
      finish_time = (\<lambda>t. 0), time_time = (\<lambda>t. 0),
      cache_write = WriteOk, os_name = ''posix''\<rparr>"

text \<open>The same, with a compiler that rejects every file.\<close>

definition env_rejecting :: env where
  "env_rejecting = env_ok\<lparr>subprocess_run := (\<lambda>cmd. Some (1, ''error''))\<rparr>"

text \<open>The same, with a compiler that rejects the source \<open>src\<close> and accepts every other file.\<close>

definition env_failing :: "string \<Rightarrow> env" where
  "env_failing src =
     env_ok\<lparr>subprocess_run :=
       (\<lambda>cmd. if take 3 cmd = [''clang++'', ''-c'', src] then Some (1, ''error'')
              else Some (0, []))\<rparr>"

text \<open>The same, with a compiler that compiles every file and a linker that fails.\<close>

definition env_link_fails :: env where
  "env_link_fails =
     env_ok\<lparr>subprocess_run :=
       (\<lambda>cmd. if take 2 cmd = [''clang++'', ''-c''] then Some (0, [])
              else Some (1, ''undefined reference''))\<rparr>"

text \<open>
  The same as \<open>env_ok\<close>, with a cache file whose write fails after it was opened, and
  with a cache file that cannot be opened for writing.
\<close>

definition env_unwritable :: env where
  "env_unwritable = env_ok\<lparr>cache_write := DumpFails\<rparr>"

definition env_readonly :: env where
  "env_readonly = env_ok\<lparr>cache_write := OpenFails\<rparr>"

definition doc_demo :: toml_doc where
  "doc_demo =
     \<lparr>t_project = Some ''demo'', t_version = None, t_build_profile = Some (PStr ''debug''),
      t_sources_cpp = Some [''src/a.cpp'', ''src/b.cpp''], t_compiler_command = None,
      t_compiler_flags = Some [''-Wall''], t_include_dirs = Some [''include''],
      t_output_dir = None, t_binary_name = None\<rparr>"

definition cfg_demo :: BuildConfig where
  "cfg_demo =
     \<lparr>raw = doc_demo, project = ''demo'', version = ''0.0.0'',
      profile = \<lparr>name = ''debug'', flags = [''-O0'', ''-g'']\<rparr>,
      cpp_sources = [''src/a.cpp'', ''src/b.cpp''], compiler_cmd = ''clang++'',
      compiler_base_flags = [''-Wall''], include_dirs = [''include''],
      output_dir = ''build'', binary_name = ''demo''\<rparr>"

text \<open>Two sources with the same file name in two directories.\<close>

definition cfg_clash :: BuildConfig where
  "cfg_clash = cfg_demo\<lparr>cpp_sources := [''a/x.cpp'', ''b/x.cpp'']\<rparr>"

text \<open>The compile tasks of the two configurations, and the state of a first run.\<close>

definition task_demo_a :: task where
  "task_demo_a = (''src/a.cpp'', ''build/a.o'', ''/w/src/a.cppint x;-Wall-O0-ginclude'')"

definition task_demo_b :: task where
  "task_demo_b = (''src/b.cpp'', ''build/b.o'', ''/w/src/b.cppint x;-Wall-O0-ginclude'')"

definition task_clash_a :: task where
  "task_clash_a = (''a/x.cpp'', ''build/x.o'', ''/w/a/x.cppint x;-Wall-O0-ginclude'')"

definition task_clash_b :: task where
  "task_clash_b = (''b/x.cpp'', ''build/x.o'', ''/w/b/x.cppint x;-Wall-O0-ginclude'')"

definition world0 :: world where
  "world0 = ForgeBuilder_init (new_world Absent)"

text \<open>
  A new process started on the files that a run has left: the trace of the old
  process is gone, the builder loads the cache file.
\<close>

definition restart :: "world \<Rightarrow> world" where
  "restart w = ForgeBuilder_init ((new_world (cache_on_disk w))\<lparr>dirs := dirs w\<rparr>)"

text \<open>The state in which a second process starts after a first build from no cache.\<close>

definition after_first_run :: "env \<Rightarrow> BuildConfig \<Rightarrow> world" where
  "after_first_run e cfg = restart (snd (build e cfg False world0))"

section \<open>Properties\<close>

subsection \<open>The fingerprint\<close>

lemma foldl_sha_update: "foldl sha_update h bs = h @ concat bs"
  by (induction bs arbitrary: h) (simp_all add: sha_update_def)

lemma hash_source_concat:
  "hash_source e p bf pf incs =
     (case file_bytes e p of
        None \<Rightarrow> Inl (OSError ''read'')
      | Some c \<Rightarrow>
          Inr (sha256_hexdigest e (path_resolve e p @ c @ concat bf @ concat pf @ concat incs)))"
  by (simp add: hash_source_def read_file_bytes_def foldl_sha_update sha_update_def
      split: option.splits)

text \<open>
  C1 (fingerprint sensitivity). The claim: changing any one of the five inputs of
  \<open>hash_source\<close>, the order of the include directories among them, changes the digest
  unless SHA-256 collides. The code feeds the five inputs to the hash one after the
  other with nothing between them, so the digest depends on their concatenation only.
  Whatever the hash function, the file and its path: exchanging the include
  directories \<open>a\<close> and \<open>aa\<close>, splitting the base flag \<open>-DX\<close> in two, or moving a flag from
  the base flags to the profile flags leaves the digest unchanged.
\<close>

theorem hash_source_concatenation_collision:
  "hash_source e p bf pf [''a'', ''aa''] = hash_source e p bf pf [''aa'', ''a'']
   \<and> hash_source e p [''-D'', ''X''] pf incs = hash_source e p [''-DX''] pf incs
   \<and> hash_source e p [''-g''] [] incs = hash_source e p [] [''-g''] incs"
  by (simp add: hash_source_concat split: option.splits)

subsection \<open>Loading the cache\<close>

text \<open>
  C7 (cache load fails soft). When the cache file is absent, cannot be read or cannot
  be parsed, \<open>BuildCache_load\<close> returns the empty map, so that every unit needs a
  rebuild; the function has no error among its results.
\<close>

theorem cache_load_fails_soft:
  "f = Absent \<or> f = Unreadable \<or> f = Unparsable \<Longrightarrow>
     BuildCache_load f = Map.empty \<and> (\<forall>obj h. needs_rebuild (BuildCache_load f) obj h)"
  by (auto simp: BuildCache_load_def file_exists_def json_load_def needs_rebuild_def
      get_entry_def)

theorem cache_load_fails_soft_witness:
  "BuildCache_load Unparsable = Map.empty
   \<and> needs_rebuild (BuildCache_load Unparsable) (Path_of ''build/main.o'') ''0f3a''
   \<and> BuildCache_load Unreadable = Map.empty
   \<and> BuildCache_load Absent = Map.empty"
  using cache_load_fails_soft [of Unparsable] cache_load_fails_soft [of Unreadable]
    cache_load_fails_soft [of Absent]
  by blast

subsection \<open>The profile\<close>

text \<open>
  C10 (profile fallback). Loading a configuration document fails only with exit code 1
  and only when the list of sources is missing or empty, whatever the profile. When it
  succeeds, the profile is \<open>release\<close> with \<open>-O3 -DNDEBUG\<close> if the configured value is
  the string \<open>release\<close>, and \<open>debug\<close> with \<open>-O0 -g\<close> for every other value and for none.
\<close>

theorem profile_fallback:
  "(case from_file (ConfigDoc doc) of
      Inl err \<Rightarrow> err = SystemExit 1 \<and> dict_get (t_sources_cpp doc) [] = []
    | Inr cfg \<Rightarrow>
        profile cfg =
          (if t_build_profile doc = Some (PStr ''release'')
           then \<lparr>name = ''release'', flags = [''-O3'', ''-DNDEBUG'']\<rparr>
           else \<lparr>name = ''debug'', flags = [''-O0'', ''-g'']\<rparr>))"
  by (auto simp: from_file_def dict_get_def Let_def split: option.splits)

subsection \<open>The compile worker\<close>

lemma foldl_append_each: "foldl (\<lambda>cmd inc. cmd @ [f inc]) cmd incs = cmd @ map f incs"
  by (induction incs arbitrary: cmd) simp_all

lemma compile_cmd_eq:
  "compile_cmd compiler bf pf incs source obj_path =
     [compiler, ''-c'', path_str (Path_of source), ''-o'', path_str (Path_of obj_path)]
       @ map (\<lambda>inc. ''-I'' @ inc) incs @ bf @ pf"
  unfolding compile_cmd_def Let_def foldl_append_each by simp

lemma self_in_path_and_parents: "path_str p \<in> set (path_and_parents p)"
proof -
  have "path_str p = (\<lambda>n. path_str (p\<lparr>segs := take n (segs p)\<rparr>)) (length (segs p))"
    by simp
  moreover have "length (segs p) \<in> set [0..<Suc (length (segs p))]" by simp
  ultimately show ?thesis
    unfolding path_and_parents_def set_map by (rule image_eqI)
qed

text \<open>
  C5 (compile worker contract). When the directory of the object file can be made and
  the compiler process runs and returns the code \<open>rc\<close> (0 or not) with the error text
  \<open>err\<close>, the worker returns \<open>(source, rc, err)\<close> and raises nothing; afterwards the
  directory of the object file exists, and the one process that ran had the arguments
  compiler, \<open>-c\<close>, source, \<open>-o\<close>, object, one \<open>-I\<close> argument per include directory in
  order, the base flags, the profile flags. Source and object path stand in the
  command as \<^verbatim>\<open>pathlib\<close> prints them.
\<close>

theorem compiler_daemon_contract:
  assumes "mkdir_parents e (path_str (path_parent (Path_of obj_path)))"
    and "subprocess_run e
           ([compiler, ''-c'', path_str (Path_of source), ''-o'', path_str (Path_of obj_path)]
              @ map (\<lambda>inc. ''-I'' @ inc) incs @ bf @ pf) = Some (rc, err)"
  shows "compiler_daemon e compiler bf pf incs source obj_path w =
      (Inr (source, rc, err),
       w\<lparr>dirs := dirs w \<union> set (path_and_parents (path_parent (Path_of obj_path))),
         compile_procs := compile_procs w @
          [[compiler, ''-c'', path_str (Path_of source), ''-o'', path_str (Path_of obj_path)]
              @ map (\<lambda>inc. ''-I'' @ inc) incs @ bf @ pf]\<rparr>)
     \<and> path_str (path_parent (Path_of obj_path))
          \<in> dirs w \<union> set (path_and_parents (path_parent (Path_of obj_path)))"
  using assms self_in_path_and_parents [of "path_parent (Path_of obj_path)"]
  by (simp add: compiler_daemon_def mkdir_def compile_cmd_eq Let_def)

lemma path_str_src_main: "path_str (Path_of ''src/main.cpp'') = ''src/main.cpp''"
  by code_simp

lemma path_str_build_main: "path_str (Path_of ''build/main.o'') = ''build/main.o''"
  by code_simp

lemma path_parent_build_main: "path_str (path_parent (Path_of ''build/main.o'')) = ''build''"
  by code_simp

theorem compiler_daemon_contract_witness:
  "fst (compiler_daemon env_rejecting ''clang++'' [''-Wall''] [''-O0'', ''-g''] [''include'', ''lib'']
          ''src/main.cpp'' ''build/main.o'' (new_world Absent))
     = Inr (''src/main.cpp'', 1, ''error'')
   \<and> compile_procs (snd (compiler_daemon env_rejecting ''clang++'' [''-Wall''] [''-O0'', ''-g'']
          [''include'', ''lib''] ''src/main.cpp'' ''build/main.o'' (new_world Absent)))
     = [[''clang++'', ''-c'', ''src/main.cpp'', ''-o'', ''build/main.o'', ''-Iinclude'', ''-Ilib'',
         ''-Wall'', ''-O0'', ''-g'']]
   \<and> ''build'' \<in> dirs (snd (compiler_daemon env_rejecting ''clang++'' [''-Wall''] [''-O0'', ''-g'']
          [''include'', ''lib''] ''src/main.cpp'' ''build/main.o'' (new_world Absent)))"
proof -
  have m: "mkdir_parents env_rejecting (path_str (path_parent (Path_of ''build/main.o'')))"
    by (simp add: env_rejecting_def env_ok_def)
  have r: "subprocess_run env_rejecting
           ([''clang++'', ''-c'', path_str (Path_of ''src/main.cpp''), ''-o'',
             path_str (Path_of ''build/main.o'')]
              @ map (\<lambda>inc. ''-I'' @ inc) [''include'', ''lib''] @ [''-Wall''] @ [''-O0'', ''-g''])
          = Some (1, ''error'')"
    by (simp add: env_rejecting_def env_ok_def)
  show ?thesis
    using compiler_daemon_contract [OF m r, of "new_world Absent"]
    by (simp add: path_str_src_main path_str_build_main path_parent_build_main new_world_def)
qed

subsection \<open>Object paths\<close>

lemma split_sep_no_sep: "x \<in> set (split_sep s) \<Longrightarrow> CHR ''/'' \<notin> set x"
  by (induction s arbitrary: x) (auto split: if_splits list.splits)

lemma split_sep_single: "CHR ''/'' \<notin> set s \<Longrightarrow> split_sep s = [s]"
  by (induction s) auto

lemma path_name_no_sep: "CHR ''/'' \<notin> set (path_name (Path_of s))"
proof (cases "segs (Path_of s) = []")
  case True
  then show ?thesis by (simp add: path_name_def)
next
  case False
  then have "last (segs (Path_of s)) \<in> set (segs (Path_of s))" by simp
  then have "last (segs (Path_of s)) \<in> set (split_sep s)" by (simp add: Path_of_def)
  then show ?thesis using False by (simp add: path_name_def split_sep_no_sep)
qed

lemma path_stem_prefix: "\<exists>r. path_name p = path_stem p @ r"
  by (simp add: path_stem_def Let_def) (metis append_take_drop_id)

lemma path_stem_no_sep: "CHR ''/'' \<notin> set (path_stem (Path_of s))"
  using path_stem_prefix [of "Path_of s"] path_name_no_sep [of s]
  by (metis Un_iff set_append)

lemma with_suffix_o:
  "with_suffix p ''.o'' =
     (if path_name p = [] then Inl ValueError
      else Inr (p\<lparr>segs := butlast (segs p) @ [path_stem p @ ''.o'']\<rparr>))"
  by (auto simp: with_suffix_def path_stem_def Let_def)

lemma Path_of_component:
  assumes "CHR ''/'' \<notin> set n" "n \<noteq> []" "n \<noteq> ''.''"
  shows "Path_of n = \<lparr>anchor = [], segs = [n]\<rparr>"
proof -
  obtain c cs where n: "n = c # cs" using assms(2) by (cases n) auto
  with assms(1) have "c \<noteq> CHR ''/''" by auto
  then have "path_anchor n = []" by (simp add: path_anchor_def n)
  then show ?thesis using assms by (simp add: Path_of_def split_sep_single)
qed

lemma join_sep_snoc: "join_sep (xs @ [n]) = (if xs = [] then n else join_sep xs @ ''/'' @ n)"
  by (induction xs rule: join_sep.induct) auto

lemma path_str_truediv_component:
  assumes "CHR ''/'' \<notin> set n" "n \<noteq> []" "n \<noteq> ''.''"
  shows "path_str (truediv p n) = dir_prefix p @ n"
  using assms
  by (simp add: truediv_def Path_of_component path_str_def join_sep_snoc dir_prefix_def)

text \<open>The object path is the output directory, then the stem of the source, then \<open>.o\<close>.\<close>

lemma object_path_eq:
  "object_path out s =
     (if path_name (Path_of s) = [] then Inl ValueError
      else Inr (dir_prefix (Path_of out) @ path_stem (Path_of s) @ ''.o''))"
proof (cases "path_name (Path_of s) = []")
  case True
  then show ?thesis by (simp add: object_path_def with_suffix_o)
next
  case False
  let ?n = "path_stem (Path_of s) @ ''.o''"
  have "CHR ''/'' \<notin> set ?n" using path_stem_no_sep [of s] by simp
  moreover have "?n \<noteq> []" "?n \<noteq> ''.''" by auto
  ultimately have "path_str (truediv (Path_of out) ?n) = dir_prefix (Path_of out) @ ?n"
    by (rule path_str_truediv_component)
  moreover have "path_name (Path_of s\<lparr>segs := butlast (segs (Path_of s)) @ [?n]\<rparr>) = ?n"
    by (simp add: path_name_def)
  ultimately show ?thesis using False
    by (simp add: object_path_def with_suffix_o)
qed

lemma compilation_unit_object_path:
  "compilation_unit e cfg s = Inr (src_path, obj_path, h) \<Longrightarrow>
     object_path (output_dir cfg) s = Inr (path_str obj_path)"
  by (auto simp: compilation_unit_def object_path_def Let_def split: if_splits sum.splits)

text \<open>Parsing and joining keep paths well formed, and \<^verbatim>\<open>str\<close> loses nothing of such a path.\<close>

lemma wf_Path_of: "wf_path (Path_of s)"
  by (auto simp: wf_path_def Path_of_def path_anchor_def list_all_iff split_sep_no_sep)

lemma wf_truediv: "wf_path p \<Longrightarrow> wf_path (truediv p s)"
  using wf_Path_of [of s] by (auto simp: wf_path_def truediv_def Let_def)

lemma wf_path_parent: "wf_path p \<Longrightarrow> wf_path (path_parent p)"
  by (auto simp: wf_path_def path_parent_def list_all_iff dest: in_set_butlastD)

lemma split_sep_append:
  "CHR ''/'' \<notin> set x \<Longrightarrow> split_sep (x @ CHR ''/'' # r) = x # split_sep r"
  by (induction x) auto

lemma split_sep_join_sep:
  "xs \<noteq> [] \<Longrightarrow> list_all (\<lambda>s. CHR ''/'' \<notin> set s) xs \<Longrightarrow> split_sep (join_sep xs) = xs"
proof (induction xs rule: join_sep.induct)
  case 1
  then show ?case by simp
next
  case (2 x)
  then show ?case by (simp add: split_sep_single)
next
  case (3 x y ys)
  then show ?case by (simp add: split_sep_append)
qed

lemma join_sep_head:
  "xs \<noteq> [] \<Longrightarrow> hd xs \<noteq> [] \<Longrightarrow> join_sep xs \<noteq> [] \<and> hd (join_sep xs) = hd (hd xs)"
  by (induction xs rule: join_sep.induct) auto

lemma Path_of_path_str:
  assumes "wf_path p"
  shows "Path_of (path_str p) = p"
proof (cases "segs p = []")
  case True
  with assms show ?thesis
    by (auto simp: wf_path_def Path_of_def path_str_def path_anchor_def)
next
  case False
  from assms have ok: "list_all (\<lambda>s. s \<noteq> [] \<and> s \<noteq> ''.'' \<and> CHR ''/'' \<notin> set s) (segs p)"
    by (simp add: wf_path_def)
  then have nos: "list_all (\<lambda>s. CHR ''/'' \<notin> set s) (segs p)"
    by (simp add: list_all_iff)
  have sp: "split_sep (join_sep (segs p)) = segs p"
    using split_sep_join_sep [OF False nos] .
  have flt: "filter (\<lambda>x. x \<noteq> [] \<and> x \<noteq> ''.'') (segs p) = segs p"
    using ok by (simp add: list_all_iff)
  from False ok have h: "hd (segs p) \<noteq> []" "CHR ''/'' \<notin> set (hd (segs p))"
    by (cases "segs p"; simp)+
  from join_sep_head [OF False h(1)] obtain c cs where j: "join_sep (segs p) = c # cs"
    and c: "c = hd (hd (segs p))"
    by (cases "join_sep (segs p)") auto
  from h c have cn: "c \<noteq> CHR ''/''"
    by (cases "hd (segs p)") auto
  from assms consider "anchor p = []" | "anchor p = ''/''" | "anchor p = ''//''"
    by (auto simp: wf_path_def)
  then show ?thesis
  proof cases
    case 1
    then have "path_str p = join_sep (segs p)" using False by (simp add: path_str_def)
    then show ?thesis using 1 sp flt j cn
      by (simp add: Path_of_def path_anchor_def)
  next
    case 2
    then have s: "path_str p = CHR ''/'' # join_sep (segs p)" by (simp add: path_str_def)
    have "split_sep (path_str p) = [] # segs p" by (simp add: s sp)
    then show ?thesis using 2 flt j cn
      by (simp add: Path_of_def path_anchor_def s)
  next
    case 3
    then have s: "path_str p = CHR ''/'' # CHR ''/'' # join_sep (segs p)" by (simp add: path_str_def)
    have "split_sep (path_str p) = [] # [] # segs p" by (simp add: s sp)
    then show ?thesis using 3 flt j cn
      by (simp add: Path_of_def path_anchor_def s)
  qed
qed

lemma compilation_unit_wf:
  "compilation_unit e cfg s = Inr (src_path, obj_path, h) \<Longrightarrow> wf_path src_path \<and> wf_path obj_path"
  by (auto simp: compilation_unit_def Let_def wf_Path_of wf_truediv split: if_splits sum.splits)

lemma task_of_normal:
  "wf_path obj_path \<Longrightarrow>
     path_str (Path_of (fst (snd (task_of (src_path, obj_path, h))))) = path_str obj_path"
  by (simp add: task_of_def Path_of_path_str)

lemma unit_clash_a:
  "compilation_unit env_ok cfg_clash ''a/x.cpp''
     = Inr (Path_of ''a/x.cpp'', Path_of ''build/x.o'', ''/w/a/x.cppint x;-Wall-O0-ginclude'')"
  by code_simp

lemma unit_clash_b:
  "compilation_unit env_ok cfg_clash ''b/x.cpp''
     = Inr (Path_of ''b/x.cpp'', Path_of ''build/x.o'', ''/w/b/x.cppint x;-Wall-O0-ginclude'')"
  by code_simp

lemma unit_demo_a:
  "compilation_unit env_ok cfg_demo ''src/a.cpp''
     = Inr (Path_of ''src/a.cpp'', Path_of ''build/a.o'', ''/w/src/a.cppint x;-Wall-O0-ginclude'')"
  by code_simp

lemma unit_demo_b:
  "compilation_unit env_ok cfg_demo ''src/b.cpp''
     = Inr (Path_of ''src/b.cpp'', Path_of ''build/b.o'', ''/w/src/b.cppint x;-Wall-O0-ginclude'')"
  by code_simp

text \<open>
  C9 (distinct object paths), as the claim states it, fails: the sources \<open>a/x.cpp\<close> and
  \<open>b/x.cpp\<close> of one source list are distinct, and both get the object path
  \<open>build/x.o\<close>.
\<close>

theorem object_path_clash:
  "''a/x.cpp'' \<in> set (cpp_sources cfg_clash) \<and> ''b/x.cpp'' \<in> set (cpp_sources cfg_clash)
   \<and> ''a/x.cpp'' \<noteq> ''b/x.cpp''
   \<and> path_str (fst (snd (projr (compilation_unit env_ok cfg_clash ''a/x.cpp'')))) = ''build/x.o''
   \<and> path_str (fst (snd (projr (compilation_unit env_ok cfg_clash ''b/x.cpp'')))) = ''build/x.o''"
proof -
  have "cpp_sources cfg_clash = [''a/x.cpp'', ''b/x.cpp'']"
    by (simp add: cfg_clash_def)
  moreover have "path_str (Path_of ''build/x.o'') = ''build/x.o''"
    by code_simp
  ultimately show ?thesis
    by (simp add: unit_clash_a unit_clash_b)
qed

text \<open>
  C9, amended. The object path is made of the output directory and the stem of the
  source (its file name without the last suffix) only: two sources get distinct object
  paths if and only if their stems differ.
\<close>

theorem object_paths_distinct_iff_stems:
  assumes "compilation_unit e cfg s1 = Inr (src1, obj1, h1)"
    and "compilation_unit e cfg s2 = Inr (src2, obj2, h2)"
  shows "path_str obj1 \<noteq> path_str obj2 \<longleftrightarrow> path_stem (Path_of s1) \<noteq> path_stem (Path_of s2)"
proof -
  have 1: "path_str obj1 = dir_prefix (Path_of (output_dir cfg)) @ path_stem (Path_of s1) @ ''.o''"
    using compilation_unit_object_path [OF assms(1)]
    by (simp add: object_path_eq split: if_splits)
  have 2: "path_str obj2 = dir_prefix (Path_of (output_dir cfg)) @ path_stem (Path_of s2) @ ''.o''"
    using compilation_unit_object_path [OF assms(2)]
    by (simp add: object_path_eq split: if_splits)
  show ?thesis by (simp add: 1 2)
qed

lemma stem_demo_a: "path_stem (Path_of ''src/a.cpp'') = ''a''"
  by code_simp

lemma stem_demo_b: "path_stem (Path_of ''src/b.cpp'') = ''b''"
  by code_simp

lemma path_str_build_a: "path_str (Path_of ''build/a.o'') = ''build/a.o''"
  by code_simp

lemma path_str_build_b: "path_str (Path_of ''build/b.o'') = ''build/b.o''"
  by code_simp

theorem object_paths_distinct_iff_stems_witness:
  "compilation_unit env_ok cfg_demo ''src/a.cpp''
     = Inr (Path_of ''src/a.cpp'', Path_of ''build/a.o'', ''/w/src/a.cppint x;-Wall-O0-ginclude'')
   \<and> compilation_unit env_ok cfg_demo ''src/b.cpp''
     = Inr (Path_of ''src/b.cpp'', Path_of ''build/b.o'', ''/w/src/b.cppint x;-Wall-O0-ginclude'')
   \<and> path_str (Path_of ''build/a.o'') = ''build/a.o''
   \<and> path_str (Path_of ''build/b.o'') = ''build/b.o''
   \<and> (path_str (Path_of ''build/a.o'') \<noteq> path_str (Path_of ''build/b.o''))
       = (path_stem (Path_of ''src/a.cpp'') \<noteq> path_stem (Path_of ''src/b.cpp''))
   \<and> path_stem (Path_of ''src/a.cpp'') = ''a'' \<and> path_stem (Path_of ''src/b.cpp'') = ''b''"
  using object_paths_distinct_iff_stems [OF unit_demo_a unit_demo_b]
  by (simp add: unit_demo_a unit_demo_b stem_demo_a stem_demo_b path_str_build_a
      path_str_build_b)

subsection \<open>The scheduler and the builder\<close>

text \<open>What a step leaves unchanged, and what the loop over the completed jobs computes.\<close>

lemma mkdir_frame:
  "mkdir e p w = (r, w') \<Longrightarrow>
     cache w' = cache w \<and> cache_on_disk w' = cache_on_disk w \<and> cache_writes w' = cache_writes w
     \<and> link_procs w' = link_procs w \<and> submitted w' = submitted w \<and> completed w' = completed w
     \<and> (r = None \<longleftrightarrow> mkdir_parents e (path_str p))"
  by (auto simp: mkdir_def split: if_splits)

lemma compiler_daemon_frame:
  "compiler_daemon e c bf pf incs src obj w = (res, w') \<Longrightarrow>
     cache w' = cache w \<and> cache_on_disk w' = cache_on_disk w \<and> cache_writes w' = cache_writes w
     \<and> link_procs w' = link_procs w \<and> submitted w' = submitted w \<and> completed w' = completed w"
  by (auto simp: compiler_daemon_def mkdir_def Let_def split: if_splits option.splits)

lemma compiler_daemon_ok:
  "compiler_daemon e (compiler_cmd cfg) (compiler_base_flags cfg) (flags (profile cfg))
       (include_dirs cfg) src obj w = (res, w') \<Longrightarrow>
     (case res of Inl err \<Rightarrow> False | Inr (s, rc, err) \<Rightarrow> rc = 0) = compiles_ok e cfg (src, obj, hsh)"
  by (auto simp: compiler_daemon_def mkdir_def compiles_ok_def Let_def
      split: if_splits option.splits)

lemma update_entry_entry_of:
  "update_entry d (Path_of obj) hsh (time_time e (src, obj, hsh))
     = d(path_str (Path_of obj) \<mapsto> entry_of e (src, obj, hsh))"
  by (simp add: update_entry_def entry_of_def)

lemma drain_spec:
  "drain e cfg ts (b, w) = (b', w') \<Longrightarrow>
     b' = (b \<or> (\<exists>t\<in>set ts. \<not> compiles_ok e cfg t))
     \<and> cache w' = cache_after e cfg (cache w) ts
     \<and> completed w' = completed w @ ts
     \<and> submitted w' = submitted w \<and> link_procs w' = link_procs w
     \<and> cache_on_disk w' = cache_on_disk w \<and> cache_writes w' = cache_writes w"
proof (induction ts arbitrary: b w)
  case Nil
  then show ?case by simp
next
  case (Cons t ts)
  obtain src obj hsh where t: "t = (src, obj, hsh)" by (cases t) auto
  obtain res w1 where cd: "compiler_daemon e (compiler_cmd cfg) (compiler_base_flags cfg)
       (flags (profile cfg)) (include_dirs cfg) src obj w = (res, w1)"
    by (cases "compiler_daemon e (compiler_cmd cfg) (compiler_base_flags cfg)
       (flags (profile cfg)) (include_dirs cfg) src obj w") auto
  note fr = compiler_daemon_frame [OF cd]
  note ok = compiler_daemon_ok [OF cd, of hsh]
  let ?w2 = "w1\<lparr>completed := completed w1 @ [(src, obj, hsh)]\<rparr>"
  show ?case
  proof (cases "compiles_ok e cfg t")
    case True
    with ok t obtain s err where res: "res = Inr (s, 0, err)"
      by (auto split: sum.splits)
    let ?w3 = "?w2\<lparr>cache := update_entry (cache ?w2) (Path_of obj) hsh
        (time_time e (src, obj, hsh))\<rparr>"
    from Cons.prems have "drain e cfg ts (b, ?w3) = (b', w')"
      by (simp add: t cd res)
    note ih = Cons.IH [OF this]
    have c3: "cache ?w3 = (cache w)(path_str (Path_of obj) \<mapsto> entry_of e t)"
      using fr unfolding t update_entry_entry_of [symmetric] by simp
    have f3: "completed ?w3 = completed w @ [t]" "submitted ?w3 = submitted w"
      "link_procs ?w3 = link_procs w" "cache_on_disk ?w3 = cache_on_disk w"
      "cache_writes ?w3 = cache_writes w"
      using fr by (simp_all add: t)
    have ca: "cache_after e cfg (cache w) (t # ts)
        = cache_after e cfg ((cache w)(path_str (Path_of obj) \<mapsto> entry_of e t)) ts"
      using True by (simp add: t)
    show ?thesis
      using ih True unfolding c3 f3 ca by (simp add: fun_upd_def)
  next
    case False
    with ok t have "case res of Inl err \<Rightarrow> True | Inr (s, rc, err) \<Rightarrow> rc \<noteq> 0"
      by (auto split: sum.splits)
    with Cons.prems have "drain e cfg ts (True, ?w2) = (b', w')"
      by (auto simp: t cd split: sum.splits)
    from Cons.IH [OF this] False fr show ?thesis
      by (auto simp: t)
  qed
qed

text \<open>
  The cache after the loop, for tasks whose object path is a string that \<^verbatim>\<open>Path\<close> prints
  back unchanged (as the tasks of \<^verbatim>\<open>build\<close> are).
\<close>

lemma cache_after_value:
  "(\<forall>t\<in>set ts. path_str (Path_of (fst (snd t))) = fst (snd t)) \<Longrightarrow>
   (\<forall>t\<in>set ts. compiles_ok e cfg t \<longrightarrow> fst (snd t) = k \<longrightarrow> entry_of e t = en) \<Longrightarrow>
     cache_after e cfg d ts k =
       (if \<exists>t\<in>set ts. compiles_ok e cfg t \<and> fst (snd t) = k then Some en else d k)"
  by (induction ts arbitrary: d) auto

lemma cache_after_other:
  "(\<forall>t\<in>set ts. path_str (Path_of (fst (snd t))) = fst (snd t)) \<Longrightarrow>
   (\<forall>t\<in>set ts. compiles_ok e cfg t \<longrightarrow> fst (snd t) \<noteq> k) \<Longrightarrow>
     cache_after e cfg d ts k = d k"
  by (induction ts arbitrary: d) auto

lemma set_as_completed: "set (as_completed e ts) = set ts"
  by (simp add: as_completed_def)

lemma mset_as_completed: "mset (as_completed e ts) = mset ts"
  by (simp add: as_completed_def)

lemma run_parallel_compilers_spec:
  assumes "run_parallel_compilers e cfg tasks w = (r, w')"
  shows "r = (if \<exists>t\<in>set tasks. \<not> compiles_ok e cfg t then Some (SystemExit 1) else None)
     \<and> cache w' = cache_after e cfg (cache w) (as_completed e tasks)
     \<and> completed w' = completed w @ as_completed e tasks
     \<and> submitted w' = submitted w @ tasks \<and> link_procs w' = link_procs w
     \<and> cache_on_disk w' = cache_on_disk w \<and> cache_writes w' = cache_writes w"
proof -
  obtain b w1 where d: "drain e cfg (as_completed e tasks)
      (False, w\<lparr>submitted := submitted w @ tasks\<rparr>) = (b, w1)"
    by (cases "drain e cfg (as_completed e tasks) (False, w\<lparr>submitted := submitted w @ tasks\<rparr>)")
      auto
  from assms have rw: "r = (if b then Some (SystemExit 1) else None)" "w' = w1"
    by (auto simp: run_parallel_compilers_def d split: if_splits)
  from drain_spec [OF d] show ?thesis
    by (simp add: rw set_as_completed)
qed

lemma link_spec:
  assumes "link e cfg objs w = (r, w')"
  shows "r = link_error e cfg objs
     \<and> link_procs w' = link_procs w @
          (if objs \<noteq> [] \<and> subprocess_run e (link_cmd e cfg objs) \<noteq> None
           then [link_cmd e cfg objs] else [])
     \<and> cache w' = cache w \<and> completed w' = completed w \<and> submitted w' = submitted w
     \<and> cache_on_disk w' = cache_on_disk w \<and> cache_writes w' = cache_writes w"
  using assms
  by (auto simp: link_def link_error_def Let_def split: if_splits option.splits)

lemma BuildCache_save_spec:
  assumes "BuildCache_save e w = (r, w')"
  shows "r = save_error e
     \<and> cache_on_disk w' =
         (case cache_write e of WriteOk \<Rightarrow> Stored (cache w) | OpenFails \<Rightarrow> cache_on_disk w
          | DumpFails \<Rightarrow> Unparsable)
     \<and> cache_writes w' = (if cache_write e = OpenFails then cache_writes w else Suc (cache_writes w))
     \<and> cache w' = cache w \<and> completed w' = completed w \<and> submitted w' = submitted w
     \<and> link_procs w' = link_procs w"
  using assms
  by (auto simp: BuildCache_save_def save_error_def split: write_outcome.splits)

text \<open>
  The loop of step 1 succeeds exactly when every source yields its unit; the tasks are
  the units that the cache (or the force flag) declares stale.
\<close>

lemma task_of_simp: "task_of (src_path, obj_path, h) = (path_str src_path, path_str obj_path, h)"
  by (simp add: task_of_def)

lemma stale_simp: "stale force d (src_path, obj_path, h) = (force \<or> needs_rebuild d obj_path h)"
  by (simp add: stale_def)

lemma decide_rebuilds_units:
  "decide_rebuilds e cfg force d srcs = Inr (objs, tasks) \<Longrightarrow>
     \<exists>units. map (compilation_unit e cfg) srcs = map Inr units
       \<and> objs = map (\<lambda>u. fst (snd u)) units
       \<and> tasks = map task_of (filter (stale force d) units)"
proof (induction srcs arbitrary: objs tasks)
  case Nil
  then show ?case by simp
next
  case (Cons s srcs)
  from Cons.prems obtain src obj h where u: "compilation_unit e cfg s = Inr (src, obj, h)"
    by (auto split: sum.splits)
  from Cons.prems u obtain objs' tasks' where
    r: "decide_rebuilds e cfg force d srcs = Inr (objs', tasks')"
    and o: "objs = obj # objs'"
    and t: "tasks = (if force \<or> needs_rebuild d obj h then [(path_str src, path_str obj, h)]
                     else []) @ tasks'"
    by (auto split: sum.splits)
  from Cons.IH [OF r] obtain units where
    us: "map (compilation_unit e cfg) srcs = map Inr units"
      "objs' = map (\<lambda>u. fst (snd u)) units"
      "tasks' = map task_of (filter (stale force d) units)"
    by blast
  show ?case
    by (rule exI [of _ "(src, obj, h) # units"]) (simp add: u us o t task_of_simp stale_simp)
qed

lemma decide_rebuilds_of_units:
  "map (compilation_unit e cfg) srcs = map Inr units \<Longrightarrow>
     decide_rebuilds e cfg force d srcs =
       Inr (map (\<lambda>u. fst (snd u)) units, map task_of (filter (stale force d) units))"
proof (induction srcs arbitrary: units)
  case Nil
  then show ?case by simp
next
  case (Cons s srcs)
  from Cons.prems obtain u us where units: "units = u # us"
    and u: "compilation_unit e cfg s = Inr u"
    and us: "map (compilation_unit e cfg) srcs = map Inr us"
    by (cases units) auto
  obtain src obj h where t: "u = (src, obj, h)" by (cases u) auto
  show ?case
    by (simp add: units u [unfolded t] t Cons.IH [OF us] task_of_simp stale_simp)
qed

lemma units_wf:
  "map (compilation_unit e cfg) srcs = map Inr units \<Longrightarrow>
     \<forall>u\<in>set units. wf_path (fst u) \<and> wf_path (fst (snd u))"
proof (induction srcs arbitrary: units)
  case Nil
  then show ?case by simp
next
  case (Cons s srcs)
  from Cons.prems obtain u us where units: "units = u # us"
    and u: "compilation_unit e cfg s = Inr u"
    and us: "map (compilation_unit e cfg) srcs = map Inr us"
    by (cases units) auto
  obtain src obj h where t: "u = (src, obj, h)" by (cases u) auto
  from compilation_unit_wf [OF u [unfolded t]] Cons.IH [OF us] show ?case
    by (simp add: units t)
qed

text \<open>The object paths of the tasks of \<^verbatim>\<open>build\<close> are strings that \<^verbatim>\<open>Path\<close> prints back.\<close>

lemma decide_rebuilds_tasks_normal:
  assumes "decide_rebuilds e cfg force d srcs = Inr (objs, tasks)"
  shows "\<forall>t\<in>set tasks. path_str (Path_of (fst (snd t))) = fst (snd t)"
proof
  fix t assume t: "t \<in> set tasks"
  from decide_rebuilds_units [OF assms] obtain units where
    u: "map (compilation_unit e cfg) srcs = map Inr units"
    and ts: "tasks = map task_of (filter (stale force d) units)"
    by blast
  from t ts obtain x where x: "x \<in> set units" and tx: "t = task_of x" by auto
  obtain src obj h where xx: "x = (src, obj, h)" by (cases x) auto
  from units_wf [OF u] x xx have "wf_path obj" by auto
  from task_of_normal [OF this, of src h] show "path_str (Path_of (fst (snd t))) = fst (snd t)"
    by (simp add: tx xx) (simp add: task_of_def)
qed

lemma build_spec:
  assumes mk: "mkdir_parents e (path_str (Path_of (output_dir cfg)))"
    and dec: "decide_rebuilds e cfg force (cache w) (cpp_sources cfg) = Inr (objs, tasks)"
    and b: "build e cfg force w = (r, w')"
  shows "cache w' = cache_after e cfg (cache w) (as_completed e tasks)
    \<and> submitted w' = submitted w @ tasks
    \<and> completed w' = completed w @ as_completed e tasks
    \<and> r = (if \<exists>t\<in>set tasks. \<not> compiles_ok e cfg t then Some (SystemExit 1)
              else case link_error e cfg objs of Some err \<Rightarrow> Some err | None \<Rightarrow> save_error e)
    \<and> link_procs w' = link_procs w @
           (if (\<forall>t\<in>set tasks. compiles_ok e cfg t) \<and> objs \<noteq> []
               \<and> subprocess_run e (link_cmd e cfg objs) \<noteq> None
            then [link_cmd e cfg objs] else [])
    \<and> cache_on_disk w' =
           (if (\<forall>t\<in>set tasks. compiles_ok e cfg t) \<and> link_error e cfg objs = None
            then (case cache_write e of WriteOk \<Rightarrow> Stored (cache w')
                  | OpenFails \<Rightarrow> cache_on_disk w | DumpFails \<Rightarrow> Unparsable)
            else cache_on_disk w)
    \<and> cache_writes w' =
           (if (\<forall>t\<in>set tasks. compiles_ok e cfg t) \<and> link_error e cfg objs = None
               \<and> cache_write e \<noteq> OpenFails
            then Suc (cache_writes w) else cache_writes w)"
proof -
  obtain w1 where m: "mkdir e (Path_of (output_dir cfg)) w = (None, w1)"
    using mk by (simp add: mkdir_def)
  note f1 = mkdir_frame [OF m]
  from dec f1 have dec1: "decide_rebuilds e cfg force (cache w1) (cpp_sources cfg) = Inr (objs, tasks)"
    by simp
  obtain r2 w2 where run: "(if tasks \<noteq> [] then run_parallel_compilers e cfg tasks w1
                      else (None, w1)) = (r2, w2)"
    by (cases "if tasks \<noteq> [] then run_parallel_compilers e cfg tasks w1 else (None, w1)") auto
  have f2: "r2 = (if \<exists>t\<in>set tasks. \<not> compiles_ok e cfg t then Some (SystemExit 1) else None)
     \<and> cache w2 = cache_after e cfg (cache w) (as_completed e tasks)
     \<and> completed w2 = completed w @ as_completed e tasks
     \<and> submitted w2 = submitted w @ tasks \<and> link_procs w2 = link_procs w
     \<and> cache_on_disk w2 = cache_on_disk w \<and> cache_writes w2 = cache_writes w"
  proof (cases "tasks = []")
    case True
    with run f1 show ?thesis by (auto simp: as_completed_def)
  next
    case False
    with run have "run_parallel_compilers e cfg tasks w1 = (r2, w2)" by simp
    from run_parallel_compilers_spec [OF this] f1 show ?thesis by simp
  qed
  show ?thesis
  proof (cases "\<exists>t\<in>set tasks. \<not> compiles_ok e cfg t")
    case True
    with f2 have "r2 = Some (SystemExit 1)" by simp
    with b m dec1 run have "r = Some (SystemExit 1)" "w' = w2"
      by (auto simp: build_def)
    with f2 True show ?thesis by auto
  next
    case False
    with f2 have r2: "r2 = None" by simp
    obtain r3 w3 where l: "link e cfg objs w2 = (r3, w3)"
      by (cases "link e cfg objs w2") auto
    note f3 = link_spec [OF l]
    show ?thesis
    proof (cases "link_error e cfg objs")
      case (Some err)
      with f3 have "r3 = Some err" by simp
      with b m dec1 run r2 l have "r = Some err" "w' = w3"
        by (auto simp: build_def)
      with f2 f3 False Some show ?thesis by (auto simp: link_error_def split: if_splits)
    next
      case None
      with f3 have r3: "r3 = None" by simp
      obtain r4 w4 where s: "BuildCache_save e w3 = (r4, w4)"
        by (cases "BuildCache_save e w3") auto
      note f4 = BuildCache_save_spec [OF s]
      from b m dec1 run r2 l r3 s have "r = r4" "w' = w4"
        by (auto simp: build_def)
      with f2 f3 f4 False None show ?thesis
        by (auto simp: link_error_def split: if_splits option.splits write_outcome.splits)
    qed
  qed
qed

lemma build_early:
  assumes b: "build e cfg force w = (r, w')"
    and early: "\<not> mkdir_parents e (path_str (Path_of (output_dir cfg)))
       \<or> (\<exists>err. decide_rebuilds e cfg force (cache w) (cpp_sources cfg) = Inl err)"
  shows "r \<noteq> None
     \<and> cache w' = cache w \<and> submitted w' = submitted w
     \<and> completed w' = completed w \<and> link_procs w' = link_procs w
     \<and> cache_on_disk w' = cache_on_disk w \<and> cache_writes w' = cache_writes w"
proof (cases "mkdir_parents e (path_str (Path_of (output_dir cfg)))")
  case False
  with b show ?thesis by (auto simp: build_def mkdir_def)
next
  case True
  with early obtain err where
    d: "decide_rebuilds e cfg force (cache w) (cpp_sources cfg) = Inl err" by auto
  obtain w1 where m: "mkdir e (Path_of (output_dir cfg)) w = (None, w1)"
    using True by (simp add: mkdir_def)
  note f1 = mkdir_frame [OF m]
  from d f1 have "decide_rebuilds e cfg force (cache w1) (cpp_sources cfg) = Inl err" by simp
  with b m have rw: "r = Some err" "w' = w1" by (auto simp: build_def)
  with f1 show ?thesis by simp
qed

lemma build_late:
  assumes "\<not> (\<not> mkdir_parents e (path_str (Path_of (output_dir cfg)))
       \<or> (\<exists>err. decide_rebuilds e cfg force (cache w) (cpp_sources cfg) = Inl err))"
  shows "mkdir_parents e (path_str (Path_of (output_dir cfg)))
     \<and> (\<exists>objs tasks. decide_rebuilds e cfg force (cache w) (cpp_sources cfg) = Inr (objs, tasks))"
  using assms
  by (cases "decide_rebuilds e cfg force (cache w) (cpp_sources cfg)") auto

lemma exit_code_simps:
  "exit_code None = 0" "exit_code (Some (SystemExit c)) = c" "exit_code (Some (OSError s)) = 1"
  "exit_code (Some ValueError) = 1"
  by (simp_all add: exit_code_def)

lemma distinct_map_eq:
  "distinct (map f xs) \<Longrightarrow> x \<in> set xs \<Longrightarrow> y \<in> set xs \<Longrightarrow> f x = f y \<Longrightarrow> x = y"
  by (meson distinct_map inj_on_def)


text \<open>
  A run that returned, followed by a new process on the same files and the same
  environment: when the object paths of the sources are pairwise distinct, the second
  run finds every unit in the cache.
\<close>

lemma units_object_paths:
  "map (compilation_unit e cfg) srcs = map Inr units \<Longrightarrow>
     map (object_path (output_dir cfg)) srcs = map (\<lambda>u. Inr (path_str (fst (snd u)))) units"
proof (induction srcs arbitrary: units)
  case Nil
  then show ?case by simp
next
  case (Cons s srcs)
  from Cons.prems obtain u us where units: "units = u # us"
    and u: "compilation_unit e cfg s = Inr u"
    and us: "map (compilation_unit e cfg) srcs = map Inr us"
    by (cases units) auto
  obtain src obj h where t: "u = (src, obj, h)" by (cases u) auto
  from compilation_unit_object_path [OF u [unfolded t]] Cons.IH [OF us]
  show ?case by (simp add: units t)
qed

lemma needs_rebuild_entry_of:
  "d (path_str obj) = Some (entry_of e (src, o', h)) \<Longrightarrow> \<not> needs_rebuild d obj h"
  by (simp add: needs_rebuild_def get_entry_def entry_of_def)

lemma needs_rebuild_cong:
  "d (path_str obj) = d' (path_str obj) \<Longrightarrow> needs_rebuild d obj h = needs_rebuild d' obj h"
  by (simp add: needs_rebuild_def get_entry_def)

lemma restart_fields:
  "cache (restart w) = BuildCache_load (cache_on_disk w)" "submitted (restart w) = []"
  "completed (restart w) = []" "link_procs (restart w) = []"
  "cache_on_disk (restart w) = cache_on_disk w"
  by (simp_all add: restart_def ForgeBuilder_init_def new_world_def)

lemma BuildCache_load_Stored: "BuildCache_load (Stored d) = d"
  by (simp add: BuildCache_load_def file_exists_def json_load_def)

lemma rerun_dispatches_nothing:
  assumes first: "build e cfg force w0 = (None, w1)"
    and dist: "distinct (map (object_path (output_dir cfg)) (cpp_sources cfg))"
  shows "(\<exists>objs. decide_rebuilds e cfg False (cache (restart w1)) (cpp_sources cfg) = Inr (objs, []))
     \<and> fst (build e cfg False (restart w1)) = None
     \<and> submitted (snd (build e cfg False (restart w1))) = []
     \<and> completed (snd (build e cfg False (restart w1))) = []"
proof -
  have "\<not> (\<not> mkdir_parents e (path_str (Path_of (output_dir cfg)))
       \<or> (\<exists>err. decide_rebuilds e cfg force (cache w0) (cpp_sources cfg) = Inl err))"
    using build_early [OF first] by blast
  from build_late [OF this] obtain objs tasks where
    mk: "mkdir_parents e (path_str (Path_of (output_dir cfg)))"
    and dec: "decide_rebuilds e cfg force (cache w0) (cpp_sources cfg) = Inr (objs, tasks)"
    by blast
  note s1 = build_spec [OF mk dec first]
  from s1 have ok: "\<forall>t\<in>set tasks. compiles_ok e cfg t"
    by (auto split: if_splits)
  with s1 have lk: "link_error e cfg objs = None" and sv: "save_error e = None"
    by (auto split: if_splits option.splits)
  from sv have wr: "cache_write e = WriteOk"
    by (auto simp: save_error_def split: write_outcome.splits)
  from s1 ok lk wr have disk: "cache_on_disk w1 = Stored (cache w1)" by simp
  from s1 have c1: "cache w1 = cache_after e cfg (cache w0) (as_completed e tasks)" by simp
  from decide_rebuilds_units [OF dec] obtain units where
    u: "map (compilation_unit e cfg) (cpp_sources cfg) = map Inr units"
    and o: "objs = map (\<lambda>u. fst (snd u)) units"
    and t: "tasks = map task_of (filter (stale force (cache w0)) units)"
    by blast
  have nf: "\<forall>t\<in>set (as_completed e tasks). path_str (Path_of (fst (snd t))) = fst (snd t)"
    using decide_rebuilds_tasks_normal [OF dec] by (simp add: set_as_completed)
  have "distinct (map (\<lambda>u. (Inr (path_str (fst (snd u))) :: error + string)) units)"
    using dist units_object_paths [OF u] by simp
  then have "distinct (map (Inr :: string \<Rightarrow> error + string)
      (map (\<lambda>u. path_str (fst (snd u))) units))"
    by (simp add: comp_def)
  then have du: "distinct (map (\<lambda>u. path_str (fst (snd u))) units)"
    by (auto simp: distinct_map inj_on_def)
  have key: "fst (snd (task_of y)) = path_str (fst (snd y))" for y :: "Path \<times> Path \<times> string"
    by (cases y) (simp add: task_of_def)
  have fresh: "\<not> stale False (cache w1) x" if x: "x \<in> set units" for x
  proof -
    obtain sp op h where xx: "x = (sp, op, h)" by (cases x) auto
    show ?thesis
    proof (cases "stale force (cache w0) x")
      case True
      with x t have tx: "task_of x \<in> set tasks" by simp
      have "\<forall>t\<in>set (as_completed e tasks). compiles_ok e cfg t
          \<longrightarrow> fst (snd t) = path_str op \<longrightarrow> entry_of e t = entry_of e (task_of x)"
      proof (intro ballI impI)
        fix y assume y: "y \<in> set (as_completed e tasks)" and e: "fst (snd y) = path_str op"
        from y t obtain z where z: "z \<in> set units" and yz: "y = task_of z"
          by (auto simp: set_as_completed)
        from e yz have "path_str (fst (snd z)) = path_str (fst (snd x))"
          by (simp add: key xx)
        from distinct_map_eq [OF du z x this] show "entry_of e y = entry_of e (task_of x)"
          by (simp add: yz)
      qed
      from cache_after_value [OF nf this, of "cache w0"] tx ok
      have "cache w1 (path_str op) = Some (entry_of e (task_of x))"
        by (auto simp: c1 set_as_completed key xx)
      then show ?thesis
        using needs_rebuild_entry_of [of "cache w1" op e "path_str sp" "path_str op" h]
        by (simp add: stale_def xx task_of_def)
    next
      case False
      then have nr: "\<not> needs_rebuild (cache w0) op h" by (simp add: stale_def xx)
      have "\<forall>t\<in>set (as_completed e tasks). compiles_ok e cfg t \<longrightarrow> fst (snd t) \<noteq> path_str op"
      proof (intro ballI impI notI)
        fix y assume y: "y \<in> set (as_completed e tasks)" and e: "fst (snd y) = path_str op"
        from y t obtain z where z: "z \<in> set units" and st: "stale force (cache w0) z"
          and yz: "y = task_of z"
          by (auto simp: set_as_completed)
        from e yz have "path_str (fst (snd z)) = path_str (fst (snd x))"
          by (simp add: key xx)
        from distinct_map_eq [OF du z x this] st False show False by simp
      qed
      from cache_after_other [OF nf this, of "cache w0"]
      have "cache w1 (path_str op) = cache w0 (path_str op)" by (simp add: c1)
      with nr show ?thesis
        using needs_rebuild_cong [of "cache w1" op "cache w0" h] by (simp add: stale_def xx)
    qed
  qed
  have cr: "cache (restart w1) = cache w1"
    by (simp add: restart_fields disk BuildCache_load_Stored)
  have "filter (stale False (cache w1)) units = []"
    using fresh by (simp add: filter_empty_conv)
  with decide_rebuilds_of_units [OF u, of False "cache w1"] o
  have dec2: "decide_rebuilds e cfg False (cache (restart w1)) (cpp_sources cfg) = Inr (objs, [])"
    by (simp add: cr)
  have b2: "build e cfg False (restart w1)
      = (fst (build e cfg False (restart w1)), snd (build e cfg False (restart w1)))"
    by simp
  note s2 = build_spec [OF mk dec2 b2]
  from s2 lk sv dec2 show ?thesis
    by (simp add: restart_fields as_completed_def)
qed

subsection \<open>Partial failure\<close>

lemma as_completed_same_time:
  "finish_time e = (\<lambda>t. 0) \<Longrightarrow> as_completed e [a, b] = [a, b]"
  by (simp add: as_completed_def)

lemma world0_cache: "cache world0 = Map.empty"
  by (simp add: world0_def ForgeBuilder_init_def new_world_def BuildCache_load_def file_exists_def)

lemma mkdir_env_failing: "mkdir_parents (env_failing s) p"
  by (simp add: env_failing_def env_ok_def)

lemma decide_clash_failing:
  "decide_rebuilds (env_failing ''a/x.cpp'') cfg_clash False (cache world0) (cpp_sources cfg_clash)
     = Inr ([Path_of ''build/x.o'', Path_of ''build/x.o''], [task_clash_a, task_clash_b])"
  by code_simp

lemma path_str_build_x: "path_str (Path_of ''build/x.o'') = ''build/x.o''"
  by code_simp

lemma clash_a_fails: "\<not> compiles_ok (env_failing ''a/x.cpp'') cfg_clash task_clash_a"
  by code_simp

lemma clash_b_ok: "compiles_ok (env_failing ''a/x.cpp'') cfg_clash task_clash_b"
  by code_simp

lemma decide_demo_failing:
  "decide_rebuilds (env_failing ''src/a.cpp'') cfg_demo False (cache world0) (cpp_sources cfg_demo)
     = Inr ([Path_of ''build/a.o'', Path_of ''build/b.o''], [task_demo_a, task_demo_b])"
  by code_simp

lemma demo_a_fails: "\<not> compiles_ok (env_failing ''src/a.cpp'') cfg_demo task_demo_a"
  by code_simp

lemma demo_b_ok: "compiles_ok (env_failing ''src/a.cpp'') cfg_demo task_demo_b"
  by code_simp

text \<open>
  C3 (partial-failure aggregation), as the claim states it, fails where the failing
  unit and the succeeding unit share an object path: of \<open>a/x.cpp\<close> and \<open>b/x.cpp\<close> the first
  fails and the second succeeds, both have the cache key \<open>build/x.o\<close>, and the entry under
  that key, which is the entry of the failed unit, changes from none to the fingerprint
  of the other unit.
\<close>

theorem shared_object_path_entry_changes:
  "decide_rebuilds (env_failing ''a/x.cpp'') cfg_clash False (cache world0) (cpp_sources cfg_clash)
     = Inr ([Path_of ''build/x.o'', Path_of ''build/x.o''], [task_clash_a, task_clash_b])
   \<and> \<not> compiles_ok (env_failing ''a/x.cpp'') cfg_clash task_clash_a
   \<and> compiles_ok (env_failing ''a/x.cpp'') cfg_clash task_clash_b
   \<and> fst (snd task_clash_a) = ''build/x.o''
   \<and> cache world0 ''build/x.o'' = None
   \<and> cache (snd (build (env_failing ''a/x.cpp'') cfg_clash False world0)) ''build/x.o''
       = Some (entry_of (env_failing ''a/x.cpp'') task_clash_b)"
proof -
  let ?e = "env_failing ''a/x.cpp''"
  have b: "build ?e cfg_clash False world0
      = (fst (build ?e cfg_clash False world0), snd (build ?e cfg_clash False world0))"
    by simp
  have ft: "finish_time ?e = (\<lambda>t. 0)" by (simp add: env_failing_def env_ok_def)
  have "cache (snd (build ?e cfg_clash False world0))
      = cache_after ?e cfg_clash (cache world0) [task_clash_a, task_clash_b]"
    using build_spec [OF mkdir_env_failing decide_clash_failing b]
    by (simp add: as_completed_same_time [OF ft])
  then have c: "cache (snd (build ?e cfg_clash False world0)) ''build/x.o''
      = Some (entry_of ?e task_clash_b)"
    by (simp add: clash_a_fails clash_b_ok) (simp add: task_clash_b_def path_str_build_x)
  have o: "fst (snd task_clash_a) = ''build/x.o''" by (simp add: task_clash_a_def)
  have n: "cache world0 ''build/x.o'' = None" by (simp add: world0_cache)
  show ?thesis
    using decide_clash_failing clash_a_fails clash_b_ok o n c by blast
qed

text \<open>
  C3, amended. In a build whose dispatched units have pairwise distinct object paths,
  if the job of \<open>A\<close> fails (the compiler returns a code other than 0, or the worker
  raises) and the job of \<open>B\<close> succeeds, then every dispatched job is drained (the
  completed jobs are the submitted ones), the cache holds the entry of \<open>B\<close> with the
  fingerprint of \<open>B\<close>, the entry of \<open>A\<close> is what it was, the build ends with exit code 1,
  no linker process has run and the cache file is untouched.
\<close>

theorem partial_failure_aggregation:
  assumes mk: "mkdir_parents e (path_str (Path_of (output_dir cfg)))"
    and dec: "decide_rebuilds e cfg force (cache w) (cpp_sources cfg) = Inr (objs, tasks)"
    and A: "(srcA, objA, hA) \<in> set tasks" "\<not> compiles_ok e cfg (srcA, objA, hA)"
    and B: "(srcB, objB, hB) \<in> set tasks" "compiles_ok e cfg (srcB, objB, hB)"
    and dist: "distinct (map (\<lambda>t. fst (snd t)) tasks)"
    and b: "build e cfg force w = (r, w')"
  shows "submitted w' = submitted w @ tasks
     \<and> mset (completed w') = mset (completed w) + mset tasks
     \<and> cache w' objB = Some (entry_of e (srcB, objB, hB))
     \<and> cache w' objA = cache w objA
     \<and> r = Some (SystemExit 1) \<and> exit_code r \<noteq> 0
     \<and> link_procs w' = link_procs w
     \<and> cache_on_disk w' = cache_on_disk w"
proof -
  note s = build_spec [OF mk dec b]
  have fail: "\<exists>t\<in>set tasks. \<not> compiles_ok e cfg t" using A by blast
  have nf: "\<forall>t\<in>set (as_completed e tasks). path_str (Path_of (fst (snd t))) = fst (snd t)"
    using decide_rebuilds_tasks_normal [OF dec] by (simp add: set_as_completed)
  have cB: "cache_after e cfg (cache w) (as_completed e tasks) objB
      = Some (entry_of e (srcB, objB, hB))"
  proof -
    have "\<forall>t\<in>set (as_completed e tasks). compiles_ok e cfg t \<longrightarrow> fst (snd t) = objB
        \<longrightarrow> entry_of e t = entry_of e (srcB, objB, hB)"
      using distinct_map_eq [OF dist _ B(1)] by (auto simp: set_as_completed)
    from cache_after_value [OF nf this] B show ?thesis
      by (auto simp: set_as_completed)
  qed
  have cA: "cache_after e cfg (cache w) (as_completed e tasks) objA = cache w objA"
  proof (rule cache_after_other [OF nf], intro ballI impI)
    fix t assume t: "t \<in> set (as_completed e tasks)" "compiles_ok e cfg t"
    show "fst (snd t) \<noteq> objA"
    proof
      assume "fst (snd t) = objA"
      with distinct_map_eq [OF dist _ A(1), of t] t have "t = (srcA, objA, hA)"
        by (simp add: set_as_completed)
      with t A show False by simp
    qed
  qed
  have nall: "\<not> (\<forall>t\<in>set tasks. compiles_ok e cfg t)" using A by blast
  from s show ?thesis
    by (simp add: fail nall cA cB mset_as_completed exit_code_simps)
qed

theorem partial_failure_aggregation_witness:
  "decide_rebuilds (env_failing ''src/a.cpp'') cfg_demo False (cache world0) (cpp_sources cfg_demo)
     = Inr ([Path_of ''build/a.o'', Path_of ''build/b.o''], [task_demo_a, task_demo_b])
   \<and> \<not> compiles_ok (env_failing ''src/a.cpp'') cfg_demo task_demo_a
   \<and> compiles_ok (env_failing ''src/a.cpp'') cfg_demo task_demo_b
   \<and> submitted (snd (build (env_failing ''src/a.cpp'') cfg_demo False world0))
       = [task_demo_a, task_demo_b]
   \<and> mset (completed (snd (build (env_failing ''src/a.cpp'') cfg_demo False world0)))
       = mset [task_demo_a, task_demo_b]
   \<and> cache (snd (build (env_failing ''src/a.cpp'') cfg_demo False world0)) ''build/b.o''
       = Some (entry_of (env_failing ''src/a.cpp'') task_demo_b)
   \<and> cache (snd (build (env_failing ''src/a.cpp'') cfg_demo False world0)) ''build/a.o'' = None
   \<and> fst (build (env_failing ''src/a.cpp'') cfg_demo False world0) = Some (SystemExit 1)
   \<and> link_procs (snd (build (env_failing ''src/a.cpp'') cfg_demo False world0)) = []
   \<and> cache_on_disk (snd (build (env_failing ''src/a.cpp'') cfg_demo False world0)) = Absent"
proof -
  let ?e = "env_failing ''src/a.cpp''"
  have b: "build ?e cfg_demo False world0
      = (fst (build ?e cfg_demo False world0), snd (build ?e cfg_demo False world0))"
    by simp
  have A: "(''src/a.cpp'', ''build/a.o'', ''/w/src/a.cppint x;-Wall-O0-ginclude'')
      \<in> set [task_demo_a, task_demo_b]"
    by (simp add: task_demo_a_def)
  have B: "(''src/b.cpp'', ''build/b.o'', ''/w/src/b.cppint x;-Wall-O0-ginclude'')
      \<in> set [task_demo_a, task_demo_b]"
    by (simp add: task_demo_b_def)
  have nA: "\<not> compiles_ok ?e cfg_demo
      (''src/a.cpp'', ''build/a.o'', ''/w/src/a.cppint x;-Wall-O0-ginclude'')"
    using demo_a_fails by (simp add: task_demo_a_def)
  have okB: "compiles_ok ?e cfg_demo
      (''src/b.cpp'', ''build/b.o'', ''/w/src/b.cppint x;-Wall-O0-ginclude'')"
    using demo_b_ok by (simp add: task_demo_b_def)
  have dist: "distinct (map (\<lambda>t. fst (snd t)) [task_demo_a, task_demo_b])"
    by (simp add: task_demo_a_def task_demo_b_def)
  have w0: "submitted world0 = []" "completed world0 = []" "link_procs world0 = []"
    "cache_on_disk world0 = Absent" "cache world0 ''build/a.o'' = None"
    by (simp_all add: world0_def ForgeBuilder_init_def new_world_def BuildCache_load_def
        file_exists_def)
  show ?thesis
    using partial_failure_aggregation [OF mkdir_env_failing decide_demo_failing A nA B okB dist b]
    by (simp add: decide_demo_failing demo_a_fails demo_b_ok w0 task_demo_b_def [symmetric])
qed

subsection \<open>Writing the cache file\<close>

lemma world0_fields:
  "cache_writes world0 = 0" "cache_on_disk world0 = Absent" "submitted world0 = []"
  "link_procs world0 = []" "completed world0 = []"
  by (simp_all add: world0_def ForgeBuilder_init_def new_world_def)

lemma build_pair: "build e cfg force w = (fst (build e cfg force w), snd (build e cfg force w))"
  by simp

lemma demo_ok_returns: "fst (build env_ok cfg_demo False world0) = None"
  by code_simp

lemma demo_failing_exits:
  "fst (build (env_failing ''src/a.cpp'') cfg_demo False world0) = Some (SystemExit 1)"
  by code_simp

lemma demo_link_fails_exits:
  "fst (build env_link_fails cfg_demo False world0) = Some (SystemExit 1)"
  by code_simp

lemma demo_link_fails_ran:
  "link_procs (snd (build env_link_fails cfg_demo False world0))
     = [[''clang++'', ''build/a.o'', ''build/b.o'', ''-Wall'', ''-O0'', ''-g'', ''-o'', ''build/demo'']]"
  by code_simp

text \<open>
  C4 (cache persistence gating). A build ends in one of three ways: it returns, and the
  cache file has been written once, with the cache of the memory; or the write itself
  fails after the file was opened; or it ends with an error and the file has neither
  been written nor changed. Every abort path is of the third kind: when a dispatched
  job fails or its worker raises, or when the linker fails, the build ends with an
  error and the file is untouched. The file is written at most once, and only after
  every dispatched job succeeded and the link succeeded or was skipped.
\<close>

theorem cache_persistence_gating:
  assumes b: "build e cfg force w = (r, w')"
  shows "((r = None \<and> cache_writes w' = Suc (cache_writes w) \<and> cache_on_disk w' = Stored (cache w'))
       \<or> (r = Some (OSError ''write'') \<and> cache_write e = DumpFails
            \<and> cache_writes w' = Suc (cache_writes w) \<and> cache_on_disk w' = Unparsable)
       \<or> (r \<noteq> None \<and> cache_writes w' = cache_writes w \<and> cache_on_disk w' = cache_on_disk w))
     \<and> (\<forall>objs tasks.
           mkdir_parents e (path_str (Path_of (output_dir cfg))) \<and>
           decide_rebuilds e cfg force (cache w) (cpp_sources cfg) = Inr (objs, tasks) \<and>
           ((\<exists>t\<in>set tasks. \<not> compiles_ok e cfg t) \<or> link_error e cfg objs \<noteq> None)
           \<longrightarrow> r \<noteq> None \<and> cache_writes w' = cache_writes w
               \<and> cache_on_disk w' = cache_on_disk w)
     \<and> (cache_writes w' \<noteq> cache_writes w \<longrightarrow>
           (\<exists>objs tasks.
              decide_rebuilds e cfg force (cache w) (cpp_sources cfg) = Inr (objs, tasks) \<and>
              (\<forall>t\<in>set tasks. compiles_ok e cfg t) \<and> link_error e cfg objs = None))"
proof (cases "\<not> mkdir_parents e (path_str (Path_of (output_dir cfg)))
       \<or> (\<exists>err. decide_rebuilds e cfg force (cache w) (cpp_sources cfg) = Inl err)")
  case True
  from build_early [OF b True] True show ?thesis by auto
next
  case False
  from build_late [OF False] obtain objs tasks where mk: "mkdir_parents e (path_str (Path_of (output_dir cfg)))"
    and dec: "decide_rebuilds e cfg force (cache w) (cpp_sources cfg) = Inr (objs, tasks)"
    by blast
  note s = build_spec [OF mk dec b]
  show ?thesis
  proof (cases "(\<forall>t\<in>set tasks. compiles_ok e cfg t) \<and> link_error e cfg objs = None")
    case True
    with s dec show ?thesis
      by (cases "cache_write e") (auto simp: save_error_def)
  next
    case False
    with s dec show ?thesis by auto
  qed
qed

theorem cache_persistence_gating_witness:
  "fst (build env_ok cfg_demo False world0) = None
   \<and> cache_writes (snd (build env_ok cfg_demo False world0)) = 1
   \<and> cache_on_disk (snd (build env_ok cfg_demo False world0))
       = Stored (cache (snd (build env_ok cfg_demo False world0)))
   \<and> fst (build (env_failing ''src/a.cpp'') cfg_demo False world0) = Some (SystemExit 1)
   \<and> cache_writes (snd (build (env_failing ''src/a.cpp'') cfg_demo False world0)) = 0
   \<and> cache_on_disk (snd (build (env_failing ''src/a.cpp'') cfg_demo False world0)) = Absent
   \<and> fst (build env_link_fails cfg_demo False world0) = Some (SystemExit 1)
   \<and> link_procs (snd (build env_link_fails cfg_demo False world0))
       = [[''clang++'', ''build/a.o'', ''build/b.o'', ''-Wall'', ''-O0'', ''-g'', ''-o'', ''build/demo'']]
   \<and> cache_writes (snd (build env_link_fails cfg_demo False world0)) = 0
   \<and> cache_on_disk (snd (build env_link_fails cfg_demo False world0)) = Absent"
  using cache_persistence_gating [OF build_pair [of env_ok cfg_demo False world0]]
    cache_persistence_gating [OF build_pair [of "env_failing ''src/a.cpp''" cfg_demo False world0]]
    cache_persistence_gating [OF build_pair [of env_link_fails cfg_demo False world0]]
  by (simp add: demo_ok_returns demo_failing_exits demo_link_fails_exits demo_link_fails_ran
      world0_fields)

subsection \<open>A failing write of the cache file\<close>

lemma demo_unwritable_a: "compiles_ok env_unwritable cfg_demo task_demo_a"
  by code_simp

lemma demo_unwritable_b: "compiles_ok env_unwritable cfg_demo task_demo_b"
  by code_simp

lemma demo_unwritable_link:
  "link_error env_unwritable cfg_demo [Path_of ''build/a.o'', Path_of ''build/b.o''] = None"
  by code_simp

lemma demo_unwritable_procs:
  "link_procs (snd (build env_unwritable cfg_demo False world0))
     = [[''clang++'', ''build/a.o'', ''build/b.o'', ''-Wall'', ''-O0'', ''-g'', ''-o'', ''build/demo'']]"
  by code_simp

lemma demo_unwritable_result:
  "fst (build env_unwritable cfg_demo False world0) = Some (OSError ''write'')"
  by code_simp

text \<open>
  C6 (persist failure is non-fatal), as the claim states it, fails: \<^verbatim>\<open>build\<close> calls
  \<^verbatim>\<open>self.cache.save()\<close> with no handler. In this run both units compile, the linker
  runs and returns 0, the write of the cache file fails, and the build ends with the
  error of the write and the exit code 1.
\<close>

theorem persist_failure_ends_build_with_error:
  "compiles_ok env_unwritable cfg_demo task_demo_a
   \<and> compiles_ok env_unwritable cfg_demo task_demo_b
   \<and> link_error env_unwritable cfg_demo [Path_of ''build/a.o'', Path_of ''build/b.o''] = None
   \<and> link_procs (snd (build env_unwritable cfg_demo False world0))
       = [[''clang++'', ''build/a.o'', ''build/b.o'', ''-Wall'', ''-O0'', ''-g'', ''-o'', ''build/demo'']]
   \<and> fst (build env_unwritable cfg_demo False world0) = Some (OSError ''write'')
   \<and> exit_code (fst (build env_unwritable cfg_demo False world0)) = 1"
  by (simp add: demo_unwritable_a demo_unwritable_b demo_unwritable_link demo_unwritable_procs
      demo_unwritable_result exit_code_simps)

lemma decide_demo_readonly:
  "decide_rebuilds env_readonly cfg_demo False (cache world0) (cpp_sources cfg_demo)
     = Inr ([Path_of ''build/a.o'', Path_of ''build/b.o''], [task_demo_a, task_demo_b])"
  by code_simp

lemma demo_readonly_a: "compiles_ok env_readonly cfg_demo task_demo_a"
  by code_simp

lemma demo_readonly_b: "compiles_ok env_readonly cfg_demo task_demo_b"
  by code_simp

lemma demo_readonly_link:
  "link_error env_readonly cfg_demo [Path_of ''build/a.o'', Path_of ''build/b.o''] = None"
  by code_simp

lemma demo_link_cmd:
  "link_cmd env_readonly cfg_demo [Path_of ''build/a.o'', Path_of ''build/b.o'']
     = [''clang++'', ''build/a.o'', ''build/b.o'', ''-Wall'', ''-O0'', ''-g'', ''-o'', ''build/demo'']"
  by code_simp

text \<open>
  C6, amended. When every dispatched job succeeded and the link succeeded or was
  skipped, and the write of the cache file fails, the build ends with the error of
  the write and the exit code 1; the linker process has run before.
\<close>

theorem persist_failure_is_fatal:
  assumes mk: "mkdir_parents e (path_str (Path_of (output_dir cfg)))"
    and dec: "decide_rebuilds e cfg force (cache w) (cpp_sources cfg) = Inr (objs, tasks)"
    and ok: "\<forall>t\<in>set tasks. compiles_ok e cfg t"
    and lk: "link_error e cfg objs = None"
    and wr: "cache_write e \<noteq> WriteOk"
    and b: "build e cfg force w = (r, w')"
  shows "r = save_error e \<and> r \<noteq> None \<and> exit_code r = 1
     \<and> link_procs w' = link_procs w @ (if objs = [] then [] else [link_cmd e cfg objs])"
proof -
  note s = build_spec [OF mk dec b]
  from lk have "objs \<noteq> [] \<longrightarrow> subprocess_run e (link_cmd e cfg objs) \<noteq> None"
    by (auto simp: link_error_def split: option.splits if_splits)
  with s ok lk wr show ?thesis
    by (cases "cache_write e") (auto simp: save_error_def exit_code_simps)
qed

theorem persist_failure_is_fatal_witness:
  "decide_rebuilds env_readonly cfg_demo False (cache world0) (cpp_sources cfg_demo)
     = Inr ([Path_of ''build/a.o'', Path_of ''build/b.o''], [task_demo_a, task_demo_b])
   \<and> compiles_ok env_readonly cfg_demo task_demo_a
   \<and> compiles_ok env_readonly cfg_demo task_demo_b
   \<and> link_error env_readonly cfg_demo [Path_of ''build/a.o'', Path_of ''build/b.o''] = None
   \<and> cache_write env_readonly = OpenFails
   \<and> fst (build env_readonly cfg_demo False world0) = Some (OSError ''open for writing'')
   \<and> exit_code (fst (build env_readonly cfg_demo False world0)) = 1
   \<and> link_procs (snd (build env_readonly cfg_demo False world0))
       = [[''clang++'', ''build/a.o'', ''build/b.o'', ''-Wall'', ''-O0'', ''-g'', ''-o'', ''build/demo'']]"
proof -
  have mk: "mkdir_parents env_readonly (path_str (Path_of (output_dir cfg_demo)))"
    by (simp add: env_readonly_def env_ok_def)
  have ok: "\<forall>t\<in>set [task_demo_a, task_demo_b]. compiles_ok env_readonly cfg_demo t"
    by (simp add: demo_readonly_a demo_readonly_b)
  have wr: "cache_write env_readonly \<noteq> WriteOk" "cache_write env_readonly = OpenFails"
    by (simp_all add: env_readonly_def)
  have sv: "save_error env_readonly = Some (OSError ''open for writing'')"
    by (simp add: save_error_def wr)
  show ?thesis
    using persist_failure_is_fatal [OF mk decide_demo_readonly ok demo_readonly_link wr(1)
        build_pair [of env_readonly cfg_demo False world0]]
    by (simp add: decide_demo_readonly demo_readonly_a demo_readonly_b demo_readonly_link wr sv
        world0_fields demo_link_cmd exit_code_simps)
qed

subsection \<open>Forced builds\<close>

lemma decide_cached_force:
  "decide_rebuilds env_ok cfg_demo True (cache (after_first_run env_ok cfg_demo))
      (cpp_sources cfg_demo)
     = Inr ([Path_of ''build/a.o'', Path_of ''build/b.o''], [task_demo_a, task_demo_b])"
  by code_simp

lemma decide_cached_no_force:
  "decide_rebuilds env_ok cfg_demo False (cache (after_first_run env_ok cfg_demo))
      (cpp_sources cfg_demo)
     = Inr ([Path_of ''build/a.o'', Path_of ''build/b.o''], [])"
  by code_simp

lemma after_first_run_submitted: "submitted (after_first_run e cfg) = []"
  by (simp add: after_first_run_def restart_fields)

text \<open>
  C8 (force-build bypasses classification). When the loop of step 1 runs to its end
  with the force flag set, its tasks are the units of all sources in order, whatever
  the cache holds; \<^verbatim>\<open>build\<close> submits exactly these tasks; and the command
  \<open>force-build\<close> sets the flag.
\<close>

theorem force_build_dispatches_every_unit:
  assumes dec: "decide_rebuilds e cfg True (cache w) (cpp_sources cfg) = Inr (objs, tasks)"
  shows "map (\<lambda>s. map_sum id task_of (compilation_unit e cfg s)) (cpp_sources cfg) = map Inr tasks
     \<and> (\<forall>d. decide_rebuilds e cfg True d (cpp_sources cfg) = Inr (objs, tasks))
     \<and> (mkdir_parents e (path_str (Path_of (output_dir cfg))) \<longrightarrow>
          submitted (snd (build e cfg True w)) = submitted w @ tasks)
     \<and> main_force_rebuild ''force-build'' = Some True"
proof -
  from decide_rebuilds_units [OF dec] obtain units where
    u: "map (compilation_unit e cfg) (cpp_sources cfg) = map Inr units"
      "objs = map (\<lambda>u. fst (snd u)) units" "tasks = map task_of units"
    by (auto simp: stale_def)
  have "map (\<lambda>s. map_sum id task_of (compilation_unit e cfg s)) (cpp_sources cfg)
      = map (map_sum id task_of) (map (compilation_unit e cfg) (cpp_sources cfg))"
    by simp
  also have "\<dots> = map Inr tasks"
    unfolding u(1) by (simp add: u(3))
  finally have 1: "map (\<lambda>s. map_sum id task_of (compilation_unit e cfg s)) (cpp_sources cfg)
      = map Inr tasks" .
  have 2: "\<forall>d. decide_rebuilds e cfg True d (cpp_sources cfg) = Inr (objs, tasks)"
    using decide_rebuilds_of_units [OF u(1), of True] u by (simp add: stale_def)
  have 3: "submitted (snd (build e cfg True w)) = submitted w @ tasks"
    if mk: "mkdir_parents e (path_str (Path_of (output_dir cfg)))"
    using build_spec [OF mk dec, of "fst (build e cfg True w)" "snd (build e cfg True w)"]
    by simp
  show ?thesis using 1 2 3 by (simp add: main_force_rebuild_def)
qed


theorem force_build_dispatches_every_unit_witness:
  "decide_rebuilds env_ok cfg_demo False (cache (after_first_run env_ok cfg_demo))
      (cpp_sources cfg_demo)
     = Inr ([Path_of ''build/a.o'', Path_of ''build/b.o''], [])
   \<and> decide_rebuilds env_ok cfg_demo True (cache (after_first_run env_ok cfg_demo))
      (cpp_sources cfg_demo)
     = Inr ([Path_of ''build/a.o'', Path_of ''build/b.o''], [task_demo_a, task_demo_b])
   \<and> map (\<lambda>s. map_sum id task_of (compilation_unit env_ok cfg_demo s)) (cpp_sources cfg_demo)
     = [Inr task_demo_a, Inr task_demo_b]
   \<and> decide_rebuilds env_ok cfg_demo True Map.empty (cpp_sources cfg_demo)
     = Inr ([Path_of ''build/a.o'', Path_of ''build/b.o''], [task_demo_a, task_demo_b])
   \<and> submitted (snd (build env_ok cfg_demo True (after_first_run env_ok cfg_demo)))
     = [task_demo_a, task_demo_b]"
proof -
  have mk: "mkdir_parents env_ok (path_str (Path_of (output_dir cfg_demo)))"
    by (simp add: env_ok_def)
  show ?thesis
    using force_build_dispatches_every_unit [OF decide_cached_force]
    by (simp add: decide_cached_no_force decide_cached_force mk after_first_run_submitted)
qed


subsection \<open>The cache round trip\<close>

lemma clash_first_run: "fst (build env_ok cfg_clash False world0) = None"
  by code_simp

lemma clash_rerun_result:
  "fst (build env_ok cfg_clash False (after_first_run env_ok cfg_clash)) = None"
  by code_simp

lemma clash_rerun_submitted:
  "submitted (snd (build env_ok cfg_clash False (after_first_run env_ok cfg_clash)))
     = [task_clash_a]"
  by code_simp

lemma clash_rerun_decide:
  "decide_rebuilds env_ok cfg_clash False (cache (after_first_run env_ok cfg_clash))
      (cpp_sources cfg_clash)
     = Inr ([Path_of ''build/x.o'', Path_of ''build/x.o''], [task_clash_a])"
  by code_simp

text \<open>
  C2 (cache round trip), as the claim states it, fails in its last part: the sources
  \<open>a/x.cpp\<close> and \<open>b/x.cpp\<close> share the cache key \<open>build/x.o\<close>. Both compile, the link
  succeeds and the cache is written; the entry holds the fingerprint of the unit whose
  job was processed last. In the rerun on unchanged inputs the other unit is classified
  stale, and one compile job is dispatched.
\<close>

theorem rerun_recompiles_unit_with_shared_object_path:
  "fst (build env_ok cfg_clash False world0) = None
   \<and> after_first_run env_ok cfg_clash = restart (snd (build env_ok cfg_clash False world0))
   \<and> decide_rebuilds env_ok cfg_clash False (cache (after_first_run env_ok cfg_clash))
        (cpp_sources cfg_clash)
       = Inr ([Path_of ''build/x.o'', Path_of ''build/x.o''], [task_clash_a])
   \<and> fst (build env_ok cfg_clash False (after_first_run env_ok cfg_clash)) = None
   \<and> submitted (snd (build env_ok cfg_clash False (after_first_run env_ok cfg_clash)))
       = [task_clash_a]"
  using clash_first_run clash_rerun_result clash_rerun_submitted clash_rerun_decide
  by (simp add: after_first_run_def)

text \<open>
  C2, amended. After \<open>update_entry\<close> with a fingerprint, \<open>needs_rebuild\<close> with the same
  path and fingerprint is false; \<open>needs_rebuild\<close> is true exactly when the path has no
  entry or the entry's \<open>hash\<close> is not the given string; and when a build has returned
  and the sources of the configuration have pairwise distinct object paths, a rerun
  in a new process on unchanged inputs classifies every unit as cached, dispatches no
  compile job and returns.
\<close>

theorem cache_round_trip:
  "\<not> needs_rebuild (update_entry d obj fp now) obj fp
   \<and> (needs_rebuild d obj fp
        \<longleftrightarrow> (d (path_str obj) = None
             \<or> (\<exists>en. d (path_str obj) = Some en \<and> en ''hash'' \<noteq> Some (PStr fp))))
   \<and> (build e cfg force w0 = (None, w1)
        \<and> distinct (map (object_path (output_dir cfg)) (cpp_sources cfg))
      \<longrightarrow> (\<exists>objs. decide_rebuilds e cfg False (cache (restart w1)) (cpp_sources cfg)
                    = Inr (objs, []))
          \<and> fst (build e cfg False (restart w1)) = None
          \<and> submitted (snd (build e cfg False (restart w1))) = [])"
proof -
  have 1: "\<not> needs_rebuild (update_entry d obj fp now) obj fp"
    by (simp add: needs_rebuild_def get_entry_def update_entry_def)
  have 2: "needs_rebuild d obj fp
        \<longleftrightarrow> (d (path_str obj) = None
             \<or> (\<exists>en. d (path_str obj) = Some en \<and> en ''hash'' \<noteq> Some (PStr fp)))"
    by (auto simp: needs_rebuild_def get_entry_def split: option.splits)
  show ?thesis
    using 1 2 rerun_dispatches_nothing [of e cfg force w0 w1] by blast
qed

lemma demo_distinct_objects:
  "distinct (map (object_path (output_dir cfg_demo)) (cpp_sources cfg_demo))"
  by code_simp

theorem cache_round_trip_witness:
  "\<not> needs_rebuild (update_entry Map.empty (Path_of ''build/a.o'') ''0f3a'' 0)
        (Path_of ''build/a.o'') ''0f3a''
   \<and> needs_rebuild Map.empty (Path_of ''build/a.o'') ''0f3a''
   \<and> fst (build env_ok cfg_demo False world0) = None
   \<and> distinct (map (object_path (output_dir cfg_demo)) (cpp_sources cfg_demo))
   \<and> fst (build env_ok cfg_demo False (after_first_run env_ok cfg_demo)) = None
   \<and> submitted (snd (build env_ok cfg_demo False (after_first_run env_ok cfg_demo))) = []"
proof -
  have b: "build env_ok cfg_demo False world0 = (None, snd (build env_ok cfg_demo False world0))"
    using demo_ok_returns by (metis prod.collapse)
  show ?thesis
    using cache_round_trip [of Map.empty "Path_of ''build/a.o''" "''0f3a''" 0 env_ok cfg_demo False world0
        "snd (build env_ok cfg_demo False world0)"]
      b demo_distinct_objects demo_ok_returns
    by (simp add: after_first_run_def)
qed

end
